theory Spec2Isabelle
  imports Complex_Main
begin

section \<open>The bar chart visual: the model\<close>

text \<open>
  The development follows \<^verbatim>\<open>src/custom-src/barchart/src/visual.ts\<close>.
  JavaScript numbers are idealised as real numbers (no rounding, no overflow), with
  one exception: the band layout of the category scale goes through
  \<^verbatim>\<open>Math.floor\<close> and \<^verbatim>\<open>Math.round\<close>, which turn the rounding of a double
  into a whole unit, so there every operation rounds its exact result to a double. The
  value \<^verbatim>\<open>NaN\<close> that arithmetic on a non-number produces is written \<open>None\<close>
  where the code computes with numbers.
\<close>

subsection \<open>Values and errors\<close>

text \<open>
  A cell of a data view column is a \<^verbatim>\<open>PrimitiveValue\<close>; reading an array
  beyond its length yields \<^verbatim>\<open>undefined\<close>. The casts \<^verbatim>\<open><string>\<close> and
  \<^verbatim>\<open><number>\<close> of the source do nothing at run time, so the view model holds
  the cell as it is.
\<close>

datatype jsval = JUndefined | JNull | JBool bool | JNum real | JStr string

text \<open>Reading a property of \<^verbatim>\<open>undefined\<close> throws a \<^verbatim>\<open>TypeError\<close>.\<close>

datatype error = TypeError

text \<open>\<^verbatim>\<open>xs[i]\<close> on an array of primitive values.\<close>

definition js_index :: "jsval list \<Rightarrow> nat \<Rightarrow> jsval" where
  "js_index xs i = (if i < length xs then xs ! i else JUndefined)"

text \<open>\<^verbatim>\<open>xs[0]\<close> on an array of objects: \<open>None\<close> is \<^verbatim>\<open>undefined\<close>.\<close>

definition index0 :: "'a list \<Rightarrow> 'a option" where
  "index0 xs = (case xs of [] \<Rightarrow> None | x # _ \<Rightarrow> Some x)"

subsection \<open>The update payload\<close>

text \<open>
  The parts of \<^verbatim>\<open>VisualUpdateOptions\<close> the visual reads. An optional property
  is an \<open>option\<close>; \<open>None\<close> is the absent (falsy) property. The fields
  \<^verbatim>\<open>source\<close> and \<^verbatim>\<open>values\<close> of a category column are \<open>cat_source\<close> and
  \<open>cat_values\<close>, the field \<^verbatim>\<open>values\<close> of a value column is \<open>val_values\<close>,
  and the field \<^verbatim>\<open>values\<close> of the categorical is \<open>value_columns\<close>.
\<close>

record DataViewMetadataColumn =
  displayName :: string

record DataViewCategoryColumn =
  cat_source :: "DataViewMetadataColumn option"
  cat_values :: "jsval list"

record DataViewValueColumn =
  val_values :: "jsval list"
  maxLocal :: jsval

record DataViewCategorical =
  categories :: "DataViewCategoryColumn list option"
  value_columns :: "DataViewValueColumn list option"

record DataView =
  categorical :: "DataViewCategorical option"
  objects :: "(string \<times> string \<times> jsval) list"

record IViewport =
  width :: real
  height :: real

record VisualUpdateOptions =
  dataViews :: "DataView list option"
  viewport :: IViewport

subsection \<open>The host services\<close>

text \<open>
  The host is not part of the repository: its services are parameters. Each call may
  change the host's registries, so a service takes the host state \<open>'h\<close> and returns
  the new one. \<open>'b\<close> is a selection id builder, \<open>'sid\<close> a selection id.
  \<open>select\<close> is the selection manager's \<^verbatim>\<open>select\<close>; its promise resolves
  with the active selection ids, or is rejected (\<open>None\<close>).
\<close>

datatype IColorInfo = IColorInfo (value_of: string)

record ('h, 'b, 'sid) IVisualHost =
  getColor :: "jsval \<Rightarrow> 'h \<Rightarrow> IColorInfo \<times> 'h"
  createSelectionIdBuilder :: "'h \<Rightarrow> 'b \<times> 'h"
  withCategory :: "'b \<Rightarrow> DataViewCategoryColumn \<Rightarrow> nat \<Rightarrow> 'b"
  createSelectionId :: "'b \<Rightarrow> 'h \<Rightarrow> 'sid \<times> 'h"
  select :: "'sid \<Rightarrow> 'h \<Rightarrow> 'sid list option \<times> 'h"

subsection \<open>The view model\<close>

text \<open>The field \<^verbatim>\<open>value\<close> of a data point is \<open>value'\<close>.\<close>

record 'sid BarChartDataPoint =
  value' :: jsval
  category :: jsval
  color :: string
  selectionID :: 'sid

record 'sid BarChartViewModel =
  dataPoints :: "'sid BarChartDataPoint list"
  dataMax :: jsval

definition dataInfo :: "'sid BarChartViewModel" where
  "dataInfo = \<lparr>dataPoints = [], dataMax = JNum 0\<rparr>"

subsection \<open>\<^verbatim>\<open>visualTransform\<close>\<close>

text \<open>
  The condition of the \<^verbatim>\<open>if\<close> at lines 76 to 81, evaluated left to right:
  \<open>Inr True\<close> when the function returns \<open>dataInfo\<close>, \<open>Inr False\<close> when it goes
  on, \<open>Inl TypeError\<close> when \<^verbatim>\<open>categories[0].source\<close> reads a property of
  \<^verbatim>\<open>undefined\<close>. An array is truthy even when it is empty.
\<close>

definition guard :: "VisualUpdateOptions \<Rightarrow> error + bool" where
  "guard options =
    (case dataViews options of None \<Rightarrow> Inr True | Some dvs \<Rightarrow>
    (case index0 dvs of None \<Rightarrow> Inr True | Some dv \<Rightarrow>
    (case categorical dv of None \<Rightarrow> Inr True | Some c \<Rightarrow>
    (case categories c of None \<Rightarrow> Inr True | Some cats \<Rightarrow>
    (case index0 cats of None \<Rightarrow> Inl TypeError | Some cat \<Rightarrow>
    (case cat_source cat of None \<Rightarrow> Inr True | Some src \<Rightarrow>
    (case value_columns c of None \<Rightarrow> Inr True | Some vals \<Rightarrow> Inr False)))))))"

text \<open>
  One object literal of the loop body (lines 94 to 99). Its properties are evaluated in
  the order written: the two array reads, then the palette, then the builder chain.
\<close>

definition make_point ::
  "('h, 'b, 'sid) IVisualHost \<Rightarrow> DataViewCategoryColumn \<Rightarrow> DataViewValueColumn \<Rightarrow> nat \<Rightarrow> 'h
    \<Rightarrow> 'sid BarChartDataPoint \<times> 'h" where
  "make_point host cat dataValue i h =
    (let label = js_index (cat_values cat) i;
         v = js_index (val_values dataValue) i;
         (ci, h1) = getColor host label h;
         (b, h2) = createSelectionIdBuilder host h1;
         (sid, h3) = createSelectionId host (withCategory host b cat i) h2
     in (\<lparr>value' = v, category = label, color = value_of ci, selectionID = sid\<rparr>, h3))"

text \<open>The \<^verbatim>\<open>for\<close> loop of line 93: \<open>acc\<close> is \<^verbatim>\<open>dataPoints\<close>, pushed to at the end.\<close>

function points_loop ::
  "('h, 'b, 'sid) IVisualHost \<Rightarrow> DataViewCategoryColumn \<Rightarrow> DataViewValueColumn \<Rightarrow> nat \<Rightarrow> nat
    \<Rightarrow> 'sid BarChartDataPoint list \<Rightarrow> 'h \<Rightarrow> 'sid BarChartDataPoint list \<times> 'h" where
  "points_loop host cat dataValue i len acc h =
    (if i < len
     then (let (p, h') = make_point host cat dataValue i h
           in points_loop host cat dataValue (i + 1) len (acc @ [p]) h')
     else (acc, h))"
  by pat_completeness auto
termination
  by (relation "measure (\<lambda>(host, cat, dataValue, i, len, acc, h). len - i)") auto

text \<open>
  The function. After the guard, lines 84 to 86 read the first category column and the
  first value column; the loop header reads \<^verbatim>\<open>category.values.length\<close> and
  \<^verbatim>\<open>dataValue.values.length\<close>, which throws when the column is
  \<^verbatim>\<open>undefined\<close>. The result carries the host state after the calls.
\<close>

definition visualTransform ::
  "('h, 'b, 'sid) IVisualHost \<Rightarrow> VisualUpdateOptions \<Rightarrow> 'h
    \<Rightarrow> error + ('sid BarChartViewModel \<times> 'h)" where
  "visualTransform host options h =
    (case guard options of
       Inl e \<Rightarrow> Inl e
     | Inr True \<Rightarrow> Inr (dataInfo, h)
     | Inr False \<Rightarrow>
        (case dataViews options of None \<Rightarrow> Inl TypeError | Some dvs \<Rightarrow>
        (case index0 dvs of None \<Rightarrow> Inl TypeError | Some dv \<Rightarrow>
        (case categorical dv of None \<Rightarrow> Inl TypeError | Some c \<Rightarrow>
        (case categories c of None \<Rightarrow> Inl TypeError | Some cats \<Rightarrow>
        (case value_columns c of None \<Rightarrow> Inl TypeError | Some vals \<Rightarrow>
        (case index0 cats of None \<Rightarrow> Inl TypeError | Some cat \<Rightarrow>
        (case index0 vals of None \<Rightarrow> Inl TypeError | Some dataValue \<Rightarrow>
           (let len = max (length (cat_values cat)) (length (val_values dataValue));
                (dps, h') = points_loop host cat dataValue 0 len [] h
            in Inr (\<lparr>dataPoints = dps, dataMax = maxLocal dataValue\<rparr>, h'))))))))))"

declare points_loop.simps [simp del]

subsection \<open>Settings and the JavaScript conversions\<close>

text \<open>
  \<^verbatim>\<open>VisualSettings.parse\<close> lives in \<^verbatim>\<open>settings.ts\<close>, which is not among the
  sources, and the conversions of a string to a number and of a number to a string are
  built into the language: the three are parameters. \<open>ToNumber\<close> and \<open>ToString\<close>
  are the conversions d3 applies to a cell (\<^verbatim>\<open>Number(x)\<close>, \<^verbatim>\<open>x - a\<close>,
  \<^verbatim>\<open>key += ""\<close>); \<open>None\<close> is \<^verbatim>\<open>NaN\<close>. The fourth parameter,
  \<open>double\<close>, is the rounding of a real number to the nearest double: an arithmetic
  operation of JavaScript on two doubles returns the \<open>double\<close> of the exact result,
  and a decimal literal denotes the \<open>double\<close> of its value.
\<close>

record dataPointSettings =
  showAxis :: bool

record VisualSettings =
  dataPoint :: dataPointSettings

record runtime =
  parseSettings :: "DataView option \<Rightarrow> VisualSettings"
  StringToNumber :: "string \<Rightarrow> real option"
  NumberToString :: "real \<Rightarrow> string"
  double :: "real \<Rightarrow> real"

definition ToNumber :: "runtime \<Rightarrow> jsval \<Rightarrow> real option" where
  "ToNumber rt v =
    (case v of
       JUndefined \<Rightarrow> None
     | JNull \<Rightarrow> Some 0
     | JBool b \<Rightarrow> Some (if b then 1 else 0)
     | JNum r \<Rightarrow> Some r
     | JStr s \<Rightarrow> StringToNumber rt s)"

definition ToString :: "runtime \<Rightarrow> jsval \<Rightarrow> string" where
  "ToString rt v =
    (case v of
       JUndefined \<Rightarrow> ''undefined''
     | JNull \<Rightarrow> ''null''
     | JBool b \<Rightarrow> (if b then ''true'' else ''false'')
     | JNum r \<Rightarrow> NumberToString rt r
     | JStr s \<Rightarrow> s)"

definition Math_round :: "real \<Rightarrow> real" where
  "Math_round x = of_int \<lfloor>x + 1 / 2\<rfloor>"

definition Math_floor :: "real \<Rightarrow> real" where
  "Math_floor x = of_int \<lfloor>x\<rfloor>"

subsection \<open>The scales of d3 (version 3)\<close>

text \<open>
  d3 is a library the visual imports. \<open>scale_linear\<close> is a two point
  \<^verbatim>\<open>d3.scale.linear()\<close> applied to \<open>x\<close>: with domain \<open>[a, b]\<close> and range
  \<open>[r0, r1]\<close> it returns \<open>r0 * (1 - t) + r1 * t\<close> for \<open>t = (x - a) / (b - a)\<close>,
  and \<open>t = 0\<close> when the domain is a single point.
\<close>

definition scale_linear ::
  "real option \<times> real option \<Rightarrow> real \<times> real \<Rightarrow> real option \<Rightarrow> real option" where
  "scale_linear dm rg x =
    (case (fst dm, snd dm, x) of
       (Some a, Some b, Some v) \<Rightarrow>
         (let t = (if b - a = 0 then 0 else (v - a) / (b - a))
          in Some (fst rg * (1 - t) + snd rg * t))
     | _ \<Rightarrow> None)"

text \<open>
  \<^verbatim>\<open>d3.scale.ordinal().domain(xs)\<close> keeps the first occurrence of every key, in
  order; \<open>index_get\<close> is the position of a key, counted from 1.
\<close>

fun ordinal_domain :: "string list \<Rightarrow> string list \<Rightarrow> string list" where
  "ordinal_domain [] dm = dm"
| "ordinal_domain (x # xs) dm =
    (if x \<in> set dm then ordinal_domain xs dm else ordinal_domain xs (dm @ [x]))"

fun index_get :: "string list \<Rightarrow> string \<Rightarrow> nat option" where
  "index_get [] x = None"
| "index_get (d # ds) x = (if d = x then Some 1 else map_option Suc (index_get ds x))"

record ordinal_scale =
  o_domain :: "string list"
  o_range :: "real list"
  o_rangeBand :: real

text \<open>
  \<^verbatim>\<open>rangeRoundBands(x, padding, outerPadding)\<close>: the step between two bands is
  rounded down to a whole number, the first band starts half the rounded remainder
  after \<open>start\<close>, and the band width is the rounded share of the step left by the
  inner padding. d3 computes
  \<^verbatim>\<open>step = Math.floor((stop - start) / (domain.length - padding + 2 * outerPadding))\<close>,
  the band starts
  \<^verbatim>\<open>start + Math.round((stop - start - (domain.length - padding) * step) / 2) + step * i\<close>
  and \<^verbatim>\<open>rangeBand = Math.round(step * (1 - padding))\<close> in doubles: \<open>fl\<close> rounds
  the exact result of every operation, in the order JavaScript evaluates them.
  \<^verbatim>\<open>Math.floor\<close> and \<^verbatim>\<open>Math.round\<close> are exact.
\<close>

definition rangeRoundBands ::
  "(real \<Rightarrow> real) \<Rightarrow> string list \<Rightarrow> real \<times> real \<Rightarrow> real \<Rightarrow> real \<Rightarrow> ordinal_scale" where
  "rangeRoundBands fl dm x padding outerPadding =
    (let reverse = snd x < fst x;
         start = (if reverse then snd x else fst x);
         stop = (if reverse then fst x else snd x);
         n = real (length dm);
         step = Math_floor
           (fl (fl (stop - start) / fl (fl (n - padding) + fl (2 * outerPadding))));
         first = fl (start + Math_round
           (fl (fl (fl (stop - start) - fl (fl (n - padding) * step)) / 2)));
         steps = map (\<lambda>i. fl (first + fl (step * real i))) [0..<length dm]
     in \<lparr>o_domain = dm,
         o_range = (if reverse then rev steps else steps),
         o_rangeBand = Math_round (fl (step * fl (1 - padding)))\<rparr>)"

text \<open>The scale applied to a key; a key outside the domain has no band.\<close>

definition scale_ordinal :: "ordinal_scale \<Rightarrow> string \<Rightarrow> real option" where
  "scale_ordinal sc x =
    (case index_get (o_domain sc) x of
       None \<Rightarrow> None
     | Some k \<Rightarrow>
        (if o_range sc = [] then None
         else Some (o_range sc ! ((k - 1) mod length (o_range sc)))))"

subsection \<open>The drawing surface\<close>

text \<open>
  The bar container holds the \<^verbatim>\<open>rect.bar\<close> elements and nothing else: the
  constructor creates it empty and only \<^verbatim>\<open>update\<close> adds to it. An element
  carries its bound datum, the five attributes \<^verbatim>\<open>bars.attr\<close> sets together
  (\<open>None\<close> before the call), the attribute \<^verbatim>\<open>fill-opacity\<close> (\<open>None\<close> while
  it was never set) and whether the click listener is attached. A numeric attribute that
  is \<open>None\<close> is \<^verbatim>\<open>NaN\<close> or \<^verbatim>\<open>undefined\<close>.
\<close>

record bar_geometry =
  attr_width :: real
  attr_height :: "real option"
  attr_x :: "real option"
  attr_y :: "real option"
  attr_fill :: string

record 'sid bar_element =
  datum :: "'sid BarChartDataPoint"
  geometry :: "bar_geometry option"
  fill_opacity :: "real option"
  click_listener :: bool

text \<open>
  The fields of the class that change: the size of the \<^verbatim>\<open>svg\<close>, the bar
  container, the axis group (its font size, its \<^verbatim>\<open>translate\<close> and the scale the
  axis was drawn for) and the settings.
\<close>

record 'sid Visual =
  svg_size :: "(real \<times> real) option"
  barContainer :: "'sid bar_element list"
  xAxis_font_size :: "real option"
  xAxis_transform :: "(real \<times> real) option"
  xAxis_scale :: "ordinal_scale option"
  settings :: "VisualSettings option"

definition constructor :: "'sid Visual" where
  "constructor =
    \<lparr>svg_size = None, barContainer = [], xAxis_font_size = None, xAxis_transform = None,
     xAxis_scale = None, settings = None\<rparr>"

text \<open>
  \<^verbatim>\<open>selectAll('.bar').data(dataPoints)\<close> joins by index: the update selection (each
  element with its new datum), the data that need an element, and the surplus elements.
\<close>

fun data_join ::
  "'sid bar_element list \<Rightarrow> 'sid BarChartDataPoint list
    \<Rightarrow> 'sid bar_element list \<times> 'sid BarChartDataPoint list \<times> 'sid bar_element list" where
  "data_join (e # es) (d # ds) =
    (let (upd, enter, exit) = data_join es ds in (e\<lparr>datum := d\<rparr> # upd, enter, exit))"
| "data_join [] ds = ([], ds, [])"
| "data_join es [] = ([], [], es)"

text \<open>\<^verbatim>\<open>enter().append('rect').classed('bar', true)\<close> for one datum.\<close>

definition enter_append :: "'sid BarChartDataPoint \<Rightarrow> 'sid bar_element" where
  "enter_append d = \<lparr>datum = d, geometry = None, fill_opacity = None, click_listener = False\<rparr>"

subsection \<open>\<^verbatim>\<open>Visual.update\<close>\<close>

text \<open>Lines 146 to 148: the variable \<^verbatim>\<open>height\<close> after the \<^verbatim>\<open>if\<close>.\<close>

definition plot_height :: "VisualSettings \<Rightarrow> real \<Rightarrow> real" where
  "plot_height s h = (if showAxis (dataPoint s) then h - 25 else h)"

text \<open>Lines 155 to 161: the two scales.\<close>

definition yScale :: "runtime \<Rightarrow> jsval \<Rightarrow> real \<Rightarrow> jsval \<Rightarrow> real option" where
  "yScale rt dmax h v = scale_linear (Some 0, ToNumber rt dmax) (h, 0) (ToNumber rt v)"

definition xScale :: "runtime \<Rightarrow> 'sid BarChartDataPoint list \<Rightarrow> real \<Rightarrow> ordinal_scale" where
  "xScale rt dps w =
    rangeRoundBands (double rt) (ordinal_domain (map (\<lambda>d. ToString rt (category d)) dps) [])
      (0, w) (double rt 0.1) (double rt 0.2)"

text \<open>Lines 179 to 185: \<^verbatim>\<open>bars.attr\<close> on one element.\<close>

definition bar_attr ::
  "runtime \<Rightarrow> jsval \<Rightarrow> real \<Rightarrow> ordinal_scale \<Rightarrow> 'sid bar_element \<Rightarrow> 'sid bar_element" where
  "bar_attr rt dmax h xs e =
    e\<lparr>geometry := Some
      \<lparr>attr_width = o_rangeBand xs,
       attr_height = map_option (\<lambda>y. h - y) (yScale rt dmax h (value' (datum e))),
       attr_x = scale_ordinal xs (ToString rt (category (datum e))),
       attr_y = yScale rt dmax h (value' (datum e)),
       attr_fill = color (datum e)\<rparr>\<rparr>"

text \<open>
  The method. The settings are stored before \<^verbatim>\<open>visualTransform\<close> runs, so an
  update that throws leaves them behind: the error comes with the object as it was
  left. The entered elements join the update selection, the attributes and the click
  listener are set on all of them, and the surplus elements are removed.
\<close>

definition update ::
  "runtime \<Rightarrow> ('h, 'b, 'sid) IVisualHost \<Rightarrow> 'sid Visual \<Rightarrow> VisualUpdateOptions \<Rightarrow> 'h
    \<Rightarrow> (error \<times> 'sid Visual) + ('sid Visual \<times> 'h)" where
  "update rt host this options h =
    (let s = parseSettings rt (case dataViews options of None \<Rightarrow> None | Some dvs \<Rightarrow> index0 dvs);
         this1 = this\<lparr>settings := Some s\<rparr>
     in case visualTransform host options h of
          Inl e \<Rightarrow> Inl (e, this1)
        | Inr (transformedData, h') \<Rightarrow>
           (let w = width (viewport options);
                h0 = height (viewport options);
                hp = plot_height s h0;
                xs = xScale rt (dataPoints transformedData) w;
                (upd, enter, exit) = data_join (barContainer this1) (dataPoints transformedData);
                bars = upd @ map enter_append enter;
                bars = map (bar_attr rt (dataMax transformedData) hp xs) bars;
                bars = map (\<lambda>e. e\<lparr>click_listener := True\<rparr>) bars
            in Inr (this1\<lparr>svg_size := Some (w, h0),
                          xAxis_font_size := Some (min hp w * 0.04),
                          xAxis_transform := Some (0, hp),
                          xAxis_scale := Some xs,
                          barContainer := bars\<rparr>, h')))"

subsection \<open>The click handler\<close>

text \<open>
  Lines 190 to 197, the continuation of \<^verbatim>\<open>select\<close>: \<open>i\<close> is the position of the
  clicked element, \<open>ids\<close> the active selection. The bars the handler closes over are
  the bars of the last update, which are the elements of the container.
\<close>

definition then_select :: "'sid Visual \<Rightarrow> nat \<Rightarrow> 'sid list \<Rightarrow> 'sid Visual" where
  "then_select this i ids =
    (let bars = map (\<lambda>e. e\<lparr>fill_opacity := Some (if length ids > 0 then 0.5 else 1)\<rparr>)
                  (barContainer this)
     in this\<lparr>barContainer := bars[i := (bars ! i)\<lparr>fill_opacity := Some 1\<rparr>]\<rparr>)"

text \<open>
  A click on the element at position \<open>i\<close>, with the promise settled before anything
  else happens: a rejected promise (\<open>None\<close>) runs no continuation.
\<close>

definition click ::
  "('h, 'b, 'sid) IVisualHost \<Rightarrow> 'sid Visual \<Rightarrow> nat \<Rightarrow> 'h \<Rightarrow> 'sid Visual \<times> 'h" where
  "click host this i h =
    (if i < length (barContainer this) \<and> click_listener (barContainer this ! i)
     then (case select host (selectionID (datum (barContainer this ! i))) h of
             (None, h') \<Rightarrow> (this, h')
           | (Some ids, h') \<Rightarrow> (then_select this i ids, h'))
     else (this, h))"

section \<open>Vocabulary of the properties\<close>

text \<open>The host state when iteration \<open>i\<close> of the loop starts.\<close>

definition host_before ::
  "('h, 'b, 'sid) IVisualHost \<Rightarrow> DataViewCategoryColumn \<Rightarrow> DataViewValueColumn \<Rightarrow> nat \<Rightarrow> 'h
    \<Rightarrow> 'h" where
  "host_before host cat dataValue i h = snd (points_loop host cat dataValue 0 i [] h)"

text \<open>What the palette answers for a label, and the handle the builder chain makes for a row.\<close>

definition palette_color :: "('h, 'b, 'sid) IVisualHost \<Rightarrow> jsval \<Rightarrow> 'h \<Rightarrow> string" where
  "palette_color host label h = value_of (fst (getColor host label h))"

definition selection_handle ::
  "('h, 'b, 'sid) IVisualHost \<Rightarrow> DataViewCategoryColumn \<Rightarrow> nat \<Rightarrow> 'h \<Rightarrow> 'sid" where
  "selection_handle host cat i h =
    (let (b, h2) = createSelectionIdBuilder host h
     in fst (createSelectionId host (withCategory host b cat i) h2))"

text \<open>The first category column and the first value column of a payload, when it has them.\<close>

definition first_category :: "VisualUpdateOptions \<Rightarrow> DataViewCategoryColumn option" where
  "first_category options =
    (case dataViews options of None \<Rightarrow> None | Some dvs \<Rightarrow>
    (case index0 dvs of None \<Rightarrow> None | Some dv \<Rightarrow>
    (case categorical dv of None \<Rightarrow> None | Some c \<Rightarrow>
    (case categories c of None \<Rightarrow> None | Some cats \<Rightarrow> index0 cats))))"

definition first_value_column :: "VisualUpdateOptions \<Rightarrow> DataViewValueColumn option" where
  "first_value_column options =
    (case dataViews options of None \<Rightarrow> None | Some dvs \<Rightarrow>
    (case index0 dvs of None \<Rightarrow> None | Some dv \<Rightarrow>
    (case categorical dv of None \<Rightarrow> None | Some c \<Rightarrow>
    (case value_columns c of None \<Rightarrow> None | Some vals \<Rightarrow> index0 vals))))"

text \<open>The builder gives different rows different handles, whatever the host state.\<close>

definition handles_distinct :: "('h, 'b, 'sid) IVisualHost \<Rightarrow> DataViewCategoryColumn \<Rightarrow> bool" where
  "handles_distinct host cat \<longleftrightarrow>
    (\<forall>i j h1 h2. i \<noteq> j \<longrightarrow> selection_handle host cat i h1 \<noteq> selection_handle host cat j h2)"

text \<open>
  The palette memoises: \<open>assigned h\<close> are the colours the host state \<open>h\<close> has given
  out. A call of \<^verbatim>\<open>getColor\<close> keeps them and records its answer; the builder calls
  keep them.
\<close>

definition palette_memoized ::
  "('h, 'b, 'sid) IVisualHost \<Rightarrow> ('h \<Rightarrow> jsval \<Rightarrow> string option) \<Rightarrow> bool" where
  "palette_memoized host assigned \<longleftrightarrow>
    (\<forall>label h. assigned h \<subseteq>\<^sub>m assigned (snd (getColor host label h))
        \<and> assigned (snd (getColor host label h)) label = Some (value_of (fst (getColor host label h))))
    \<and> (\<forall>h. assigned h \<subseteq>\<^sub>m assigned (snd (createSelectionIdBuilder host h)))
    \<and> (\<forall>b h. assigned h \<subseteq>\<^sub>m assigned (snd (createSelectionId host b h)))"

text \<open>The elements of the container after the join and the append.\<close>

definition joined ::
  "'sid bar_element list \<Rightarrow> 'sid BarChartDataPoint list \<Rightarrow> 'sid bar_element list" where
  "joined es ds = (case data_join es ds of (upd, enter, exit) \<Rightarrow> upd @ map enter_append enter)"

text \<open>The settings an update parses.\<close>

definition settings_of :: "runtime \<Rightarrow> VisualUpdateOptions \<Rightarrow> VisualSettings" where
  "settings_of rt options =
    parseSettings rt (case dataViews options of None \<Rightarrow> None | Some dvs \<Rightarrow> index0 dvs)"

section \<open>Concrete inputs\<close>

text \<open>
  A host with a three colour theme that hands the colours out in turn and remembers
  them, a builder that records the rows it was given, and a selection manager that
  toggles a single selection.
\<close>

record demo_state =
  registry :: "(jsval \<times> string) list"
  active :: "nat list list"

definition theme_colors :: "string list" where
  "theme_colors = [''#01B8AA'', ''#374649'', ''#FD625E'']"

definition demo_getColor :: "jsval \<Rightarrow> demo_state \<Rightarrow> IColorInfo \<times> demo_state" where
  "demo_getColor label h =
    (case map_of (registry h) label of
       Some c \<Rightarrow> (IColorInfo c, h)
     | None \<Rightarrow>
        (let c = theme_colors ! (length (registry h) mod length theme_colors)
         in (IColorInfo c, h\<lparr>registry := registry h @ [(label, c)]\<rparr>)))"

definition demo_select :: "nat list \<Rightarrow> demo_state \<Rightarrow> nat list list option \<times> demo_state" where
  "demo_select sid h =
    (let ids = (if active h = [sid] then [] else [sid]) in (Some ids, h\<lparr>active := ids\<rparr>))"

definition demo_host :: "(demo_state, nat list, nat list) IVisualHost" where
  "demo_host =
    \<lparr>getColor = demo_getColor,
     createSelectionIdBuilder = (\<lambda>h. ([], h)),
     withCategory = (\<lambda>b cat i. b @ [i]),
     createSelectionId = (\<lambda>b h. (b, h)),
     select = demo_select\<rparr>"

definition demo_start :: demo_state where
  "demo_start = \<lparr>registry = [], active = []\<rparr>"

text \<open>
  The nearest double of a real number, ties to the even mantissa: a number \<open>x\<close>
  with \<open>2 ^ e \<le> \<bar>x\<bar> < 2 ^ (e + 1)\<close> is rounded to a multiple of
  \<open>2 ^ (e - 52)\<close>, which leaves 53 bits. The exponent is not bounded: this is the
  rounding of a double in its normal range, about \<open>10 ^ - 308\<close> to
  \<open>10 ^ 308\<close>, without overflow and without the subnormal numbers.
\<close>

definition round_half_even :: "real \<Rightarrow> int" where
  "round_half_even x =
    (if x - of_int \<lfloor>x\<rfloor> < 1 / 2 then \<lfloor>x\<rfloor>
     else if 1 / 2 < x - of_int \<lfloor>x\<rfloor> then \<lfloor>x\<rfloor> + 1
     else if even \<lfloor>x\<rfloor> then \<lfloor>x\<rfloor> else \<lfloor>x\<rfloor> + 1)"

definition binary64 :: "real \<Rightarrow> real" where
  "binary64 x =
    (if x = 0 then 0
     else of_int (round_half_even (x / 2 powr (of_int \<lfloor>log 2 \<bar>x\<bar>\<rfloor> - 52)))
            * 2 powr (of_int \<lfloor>log 2 \<bar>x\<bar>\<rfloor> - 52))"

text \<open>
  Settings read from the objects of the data view; the examples hold strings only as
  labels and numbers only as values, so the two conversions are never asked.
\<close>

definition demo_runtime :: runtime where
  "demo_runtime =
    \<lparr>parseSettings = (\<lambda>dv. \<lparr>dataPoint = \<lparr>showAxis =
        (case dv of None \<Rightarrow> False
         | Some d \<Rightarrow> (''dataPoint'', ''showAxis'', JBool True) \<in> set (objects d))\<rparr>\<rparr>),
     StringToNumber = (\<lambda>s. None),
     NumberToString = (\<lambda>r. []),
     double = binary64\<rparr>"

text \<open>Payloads: one data view with the given categorical, in a 400 by 300 viewport.\<close>

definition payload_of :: "DataViewCategorical \<Rightarrow> VisualUpdateOptions" where
  "payload_of c =
    \<lparr>dataViews = Some [\<lparr>categorical = Some c, objects = []\<rparr>],
     viewport = \<lparr>width = 400, height = 300\<rparr>\<rparr>"

definition column_of :: "jsval list \<Rightarrow> DataViewCategoryColumn" where
  "column_of xs = \<lparr>cat_source = Some \<lparr>displayName = ''Quarter''\<rparr>, cat_values = xs\<rparr>"

definition quarters_column :: DataViewCategoryColumn where
  "quarters_column = column_of [JStr ''Q1'', JStr ''Q2'', JStr ''Q3'']"

definition sales_column :: "real \<Rightarrow> DataViewValueColumn" where
  "sales_column m = \<lparr>val_values = [JNum 10, JNum 20, JNum 5], maxLocal = JNum m\<rparr>"

definition quarters :: "real \<Rightarrow> VisualUpdateOptions" where
  "quarters m =
    payload_of \<lparr>categories = Some [quarters_column], value_columns = Some [sales_column m]\<rparr>"

text \<open>Payloads whose arrays are there and empty.\<close>

definition no_categories_no_values :: VisualUpdateOptions where
  "no_categories_no_values = payload_of \<lparr>categories = Some [], value_columns = None\<rparr>"

definition no_categories :: VisualUpdateOptions where
  "no_categories =
    payload_of \<lparr>categories = Some [], value_columns = Some [sales_column 20]\<rparr>"

definition no_value_columns :: VisualUpdateOptions where
  "no_value_columns =
    payload_of \<lparr>categories = Some [quarters_column], value_columns = Some []\<rparr>"

text \<open>The same payload with the axis switched on in the objects of its data views.\<close>

definition with_axis :: "VisualUpdateOptions \<Rightarrow> VisualUpdateOptions" where
  "with_axis options =
    options\<lparr>dataViews :=
      map_option (map (\<lambda>dv. dv\<lparr>objects := [(''dataPoint'', ''showAxis'', JBool True)]\<rparr>))
        (dataViews options)\<rparr>"

text \<open>A payload whose data view holds no categorical.\<close>

definition empty_view :: VisualUpdateOptions where
  "empty_view =
    \<lparr>dataViews = Some [\<lparr>categorical = None, objects = []\<rparr>],
     viewport = \<lparr>width = 400, height = 300\<rparr>\<rparr>"

section \<open>Expected results\<close>

text \<open>The object an update leaves when it returns.\<close>

definition rendered :: "(error \<times> 'sid Visual) + ('sid Visual \<times> 'h) \<Rightarrow> 'sid Visual option" where
  "rendered r = (case r of Inl e \<Rightarrow> None | Inr (this', h') \<Rightarrow> Some this')"

text \<open>
  What the quarters payload gives under the demo host: the data points, the host state
  (with the active selection \<open>a\<close>), and the chart in a 400 by 300 viewport without
  the axis band, the three bars with the given \<^verbatim>\<open>fill-opacity\<close>.
\<close>

definition quarters_points :: "nat list BarChartDataPoint list" where
  "quarters_points =
    [\<lparr>value' = JNum 10, category = JStr ''Q1'', color = ''#01B8AA'', selectionID = [0]\<rparr>,
     \<lparr>value' = JNum 20, category = JStr ''Q2'', color = ''#374649'', selectionID = [1]\<rparr>,
     \<lparr>value' = JNum 5, category = JStr ''Q3'', color = ''#FD625E'', selectionID = [2]\<rparr>]"

definition served :: "nat list list \<Rightarrow> demo_state" where
  "served a =
    \<lparr>registry = [(JStr ''Q1'', ''#01B8AA''), (JStr ''Q2'', ''#374649''), (JStr ''Q3'', ''#FD625E'')],
     active = a\<rparr>"

definition quarters_bars ::
  "real option \<Rightarrow> real option \<Rightarrow> real option \<Rightarrow> nat list bar_element list" where
  "quarters_bars o1 o2 o3 =
    [\<lparr>datum = \<lparr>value' = JNum 10, category = JStr ''Q1'', color = ''#01B8AA'', selectionID = [0]\<rparr>,
      geometry = Some \<lparr>attr_width = 109, attr_height = Some 150, attr_x = Some 25,
        attr_y = Some 150, attr_fill = ''#01B8AA''\<rparr>,
      fill_opacity = o1, click_listener = True\<rparr>,
     \<lparr>datum = \<lparr>value' = JNum 20, category = JStr ''Q2'', color = ''#374649'', selectionID = [1]\<rparr>,
      geometry = Some \<lparr>attr_width = 109, attr_height = Some 300, attr_x = Some 146,
        attr_y = Some 0, attr_fill = ''#374649''\<rparr>,
      fill_opacity = o2, click_listener = True\<rparr>,
     \<lparr>datum = \<lparr>value' = JNum 5, category = JStr ''Q3'', color = ''#FD625E'', selectionID = [2]\<rparr>,
      geometry = Some \<lparr>attr_width = 109, attr_height = Some 75, attr_x = Some 267,
        attr_y = Some 225, attr_fill = ''#FD625E''\<rparr>,
      fill_opacity = o3, click_listener = True\<rparr>]"

definition quarters_visual ::
  "real option \<Rightarrow> real option \<Rightarrow> real option \<Rightarrow> nat list Visual" where
  "quarters_visual o1 o2 o3 =
    \<lparr>svg_size = Some (400, 300),
     barContainer = quarters_bars o1 o2 o3,
     xAxis_font_size = Some 12,
     xAxis_transform = Some (0, 300),
     xAxis_scale = Some \<lparr>o_domain = [''Q1'', ''Q2'', ''Q3''], o_range = [25, 146, 267],
       o_rangeBand = 109\<rparr>,
     settings = Some \<lparr>dataPoint = \<lparr>showAxis = False\<rparr>\<rparr>\<rparr>"

text \<open>The chart after a click on its first bar.\<close>

definition demo_clicked :: "nat list Visual \<times> demo_state" where
  "demo_clicked = click demo_host (quarters_visual None None None) 0 (served [])"

section \<open>Properties of \<^verbatim>\<open>visualTransform\<close>\<close>

subsection \<open>The guard\<close>

lemmas payload_defs = payload_of_def column_of_def quarters_column_def sales_column_def
  index0_def guard_def visualTransform_def

text \<open>
  C1, at the payload that fails it. The claim: whenever the data views, the first data
  view, the categorical shape, the category source or the value series is absent,
  \<^verbatim>\<open>visualTransform\<close> returns the empty view model and raises no error. A payload
  whose categorical has an empty \<^verbatim>\<open>categories\<close> array and no \<^verbatim>\<open>values\<close> lacks
  both the category source and the value series, and the guard throws on it: it reads
  \<^verbatim>\<open>categories[0].source\<close> before it looks at \<^verbatim>\<open>values\<close>.
\<close>

theorem visualTransform_throws_on_empty_categories:
  "guard no_categories_no_values = Inl TypeError
   \<and> visualTransform host no_categories_no_values h = Inl TypeError"
  by (simp add: no_categories_no_values_def payload_defs)

text \<open>
  X1, the payloads the guard does cover: when the data views, the first data view, the
  categorical shape or the \<^verbatim>\<open>categories\<close> array is absent, or the first category column is
  there and has no source, or it is there with its source and the \<^verbatim>\<open>values\<close>
  array is absent, \<^verbatim>\<open>visualTransform\<close> returns the empty view model, raises no
  error and calls no host service.
\<close>

theorem visualTransform_no_data:
  assumes "dataViews options = None
    \<or> (\<exists>dvs. dataViews options = Some dvs \<and> (dvs = []
        \<or> (\<exists>dv rest. dvs = dv # rest \<and> (categorical dv = None
            \<or> (\<exists>c. categorical dv = Some c \<and> (categories c = None
                \<or> (\<exists>cat cats. categories c = Some (cat # cats)
                      \<and> (cat_source cat = None \<or> value_columns c = None))))))))"
  shows "guard options = Inr True
    \<and> visualTransform host options h = Inr (\<lparr>dataPoints = [], dataMax = JNum 0\<rparr>, h)"
proof -
  have "guard options = Inr True"
    using assms by (auto simp: guard_def index0_def split: option.splits)
  then show ?thesis by (simp add: visualTransform_def dataInfo_def)
qed

theorem visualTransform_no_data_witness:
  "dataViews empty_view = Some [\<lparr>categorical = None, objects = []\<rparr>]
   \<and> guard empty_view = Inr True
   \<and> visualTransform demo_host empty_view demo_start =
       Inr (\<lparr>dataPoints = [], dataMax = JNum 0\<rparr>, demo_start)"
proof -
  have "dataViews empty_view = None
    \<or> (\<exists>dvs. dataViews empty_view = Some dvs \<and> (dvs = []
        \<or> (\<exists>dv rest. dvs = dv # rest \<and> (categorical dv = None
            \<or> (\<exists>c. categorical dv = Some c \<and> (categories c = None
                \<or> (\<exists>cat cats. categories c = Some (cat # cats)
                      \<and> (cat_source cat = None \<or> value_columns c = None))))))))"
    by (simp add: empty_view_def)
  from visualTransform_no_data [OF this, of demo_host demo_start]
  show ?thesis by (simp add: empty_view_def)
qed

text \<open>
  C10: there are payloads the guard does not send to the empty view model and on which
  the function throws. With an empty \<^verbatim>\<open>categories\<close> array the guard itself reads a
  property of \<^verbatim>\<open>undefined\<close>; with an empty \<^verbatim>\<open>values\<close> array the guard passes
  (it tests the array, never \<^verbatim>\<open>values[0]\<close>) and the loop header throws.
\<close>

theorem guard_incomplete:
  "(\<exists>options. (\<exists>dv dvs c. dataViews options = Some (dv # dvs) \<and> categorical dv = Some c
         \<and> categories c = Some []) \<and> guard options = Inl TypeError
         \<and> visualTransform host options h = Inl TypeError)
   \<and> (\<exists>options. (\<exists>dv dvs c. dataViews options = Some (dv # dvs) \<and> categorical dv = Some c
         \<and> value_columns c = Some []) \<and> guard options = Inr False
         \<and> visualTransform host options h = Inl TypeError)"
proof (intro conjI)
  show "\<exists>options. (\<exists>dv dvs c. dataViews options = Some (dv # dvs) \<and> categorical dv = Some c
         \<and> categories c = Some []) \<and> guard options = Inl TypeError
         \<and> visualTransform host options h = Inl TypeError"
    by (rule exI [of _ no_categories]) (simp add: no_categories_def payload_defs)
  show "\<exists>options. (\<exists>dv dvs c. dataViews options = Some (dv # dvs) \<and> categorical dv = Some c
         \<and> value_columns c = Some []) \<and> guard options = Inr False
         \<and> visualTransform host options h = Inl TypeError"
    by (rule exI [of _ no_value_columns]) (simp add: no_value_columns_def payload_defs)
qed

subsection \<open>The loop\<close>

lemma points_loop_done: "\<not> i < len \<Longrightarrow> points_loop host cat dv i len acc h = (acc, h)"
  by (simp add: points_loop.simps)

lemma points_loop_step:
  "i < len \<Longrightarrow> points_loop host cat dv i len acc h =
     points_loop host cat dv (Suc i) len (acc @ [fst (make_point host cat dv i h)])
       (snd (make_point host cat dv i h))"
  by (subst points_loop.simps) (simp add: case_prod_beta)

lemma points_loop_acc:
  "points_loop host cat dv i len acc h =
     (acc @ fst (points_loop host cat dv i len [] h), snd (points_loop host cat dv i len [] h))"
proof (induction "len - i" arbitrary: i acc h)
  case 0
  then show ?case by (simp add: points_loop_done)
next
  case (Suc n)
  then have lt: "i < len" and n: "n = len - Suc i" by simp_all
  show ?case
    using Suc.hyps(1) [OF n, of "acc @ [fst (make_point host cat dv i h)]"]
      Suc.hyps(1) [OF n, of "[fst (make_point host cat dv i h)]"]
    by (simp add: points_loop_step [OF lt])
qed

lemma points_loop_length:
  "length (fst (points_loop host cat dv i len acc h)) = length acc + (len - i)"
proof (induction "len - i" arbitrary: i acc h)
  case 0
  then show ?case by (simp add: points_loop_done)
next
  case (Suc n)
  then have lt: "i < len" and n: "n = len - Suc i" by simp_all
  show ?case
    using Suc.hyps(1) [OF n] lt by (simp add: points_loop_step [OF lt])
qed

lemma points_loop_split:
  "i \<le> k \<Longrightarrow> k \<le> len \<Longrightarrow>
   points_loop host cat dv i len acc h =
     points_loop host cat dv k len (fst (points_loop host cat dv i k acc h))
       (snd (points_loop host cat dv i k acc h))"
proof (induction "k - i" arbitrary: i acc h)
  case 0
  then show ?case by (simp add: points_loop_done)
next
  case (Suc n)
  then have lt: "i < k" "i < len" and n: "n = k - Suc i" by simp_all
  show ?case
    using Suc.hyps(1) [OF n] lt Suc.prems
    by (simp add: points_loop_step [OF lt(1)] points_loop_step [OF lt(2)])
qed

text \<open>Point \<open>k\<close> is the object literal built at row \<open>k\<close>, in the host state reached then.\<close>

lemma points_loop_nth:
  assumes "k < len"
  shows "fst (points_loop host cat dv 0 len [] h) ! k =
         fst (make_point host cat dv k (host_before host cat dv k h))"
proof -
  let ?a = "fst (points_loop host cat dv 0 k [] h)"
  let ?h = "host_before host cat dv k h"
  let ?p = "fst (make_point host cat dv k ?h)"
  have len: "length ?a = k" by (simp add: points_loop_length)
  have "points_loop host cat dv 0 len [] h = points_loop host cat dv k len ?a ?h"
    using assms by (simp add: points_loop_split [of 0 k len] host_before_def)
  also have "\<dots> = points_loop host cat dv (Suc k) len (?a @ [?p]) (snd (make_point host cat dv k ?h))"
    by (rule points_loop_step [OF assms])
  also have "fst \<dots> =
      (?a @ [?p]) @ fst (points_loop host cat dv (Suc k) len [] (snd (make_point host cat dv k ?h)))"
    by (subst points_loop_acc) simp
  finally show ?thesis using len by (simp add: nth_append)
qed

lemma make_point_fields:
  "value' (fst (make_point host cat dv i h)) = js_index (val_values dv) i"
  "category (fst (make_point host cat dv i h)) = js_index (cat_values cat) i"
  "color (fst (make_point host cat dv i h)) = palette_color host (js_index (cat_values cat) i) h"
  "selectionID (fst (make_point host cat dv i h)) =
     selection_handle host cat i (snd (getColor host (js_index (cat_values cat) i) h))"
  by (simp_all add: make_point_def palette_color_def selection_handle_def Let_def case_prod_beta)

lemma points_loop_pure_fields:
  assumes "k < len"
  shows "category (fst (points_loop host cat dv 0 len [] h) ! k) = js_index (cat_values cat) k"
    and "value' (fst (points_loop host cat dv 0 len [] h) ! k) = js_index (val_values dv) k"
  by (simp_all add: points_loop_nth [OF assms] make_point_fields)

subsection \<open>The two ways the function returns\<close>

lemma visualTransform_valid:
  assumes "guard options = Inr False" "first_category options = Some cat"
    "first_value_column options = Some dataValue"
  shows "visualTransform host options h =
     Inr (\<lparr>dataPoints = fst (points_loop host cat dataValue 0
               (max (length (cat_values cat)) (length (val_values dataValue))) [] h),
            dataMax = maxLocal dataValue\<rparr>,
          snd (points_loop host cat dataValue 0
               (max (length (cat_values cat)) (length (val_values dataValue))) [] h))"
  using assms
  by (auto simp: visualTransform_def first_category_def first_value_column_def Let_def
      case_prod_beta split: option.splits)

lemma visualTransform_cases:
  assumes "visualTransform host options h = Inr (vm, h')"
  obtains (empty) "guard options = Inr True" "vm = dataInfo" "h' = h"
  | (points) cat dataValue where "guard options = Inr False"
      "first_category options = Some cat" "first_value_column options = Some dataValue"
  using assms
  by (auto simp: visualTransform_def first_category_def first_value_column_def Let_def
      case_prod_beta split: option.splits sum.splits bool.splits)

subsection \<open>The example run\<close>

lemma quarters_valid:
  "guard (quarters m) = Inr False"
  "first_category (quarters m) = Some quarters_column"
  "first_value_column (quarters m) = Some (sales_column m)"
  by (simp_all add: guard_def first_category_def first_value_column_def index0_def
      quarters_def payload_of_def quarters_column_def column_of_def)

lemma quarters_run:
  "visualTransform demo_host (quarters m) demo_start =
    Inr (\<lparr>dataPoints =
           [\<lparr>value' = JNum 10, category = JStr ''Q1'', color = ''#01B8AA'', selectionID = [0]\<rparr>,
            \<lparr>value' = JNum 20, category = JStr ''Q2'', color = ''#374649'', selectionID = [1]\<rparr>,
            \<lparr>value' = JNum 5, category = JStr ''Q3'', color = ''#FD625E'', selectionID = [2]\<rparr>],
          dataMax = JNum m\<rparr>,
         \<lparr>registry = [(JStr ''Q1'', ''#01B8AA''), (JStr ''Q2'', ''#374649''), (JStr ''Q3'', ''#FD625E'')],
          active = []\<rparr>)"
  by (simp add: visualTransform_valid [OF quarters_valid] quarters_column_def column_of_def
      sales_column_def points_loop.simps make_point_def js_index_def demo_host_def
      demo_getColor_def demo_start_def theme_colors_def Let_def)

lemma demo_handles_distinct: "handles_distinct demo_host cat"
  by (simp add: handles_distinct_def selection_handle_def demo_host_def)

lemma demo_memo: "palette_memoized demo_host (\<lambda>h. map_of (registry h))"
  by (auto simp: palette_memoized_def demo_host_def demo_getColor_def Let_def map_le_def
      map_add_def split: option.splits)

subsection \<open>The data points\<close>

text \<open>
  C2: for every payload that passes validation, which is a payload that passes the
  guard and has the value series the guard is there to ask for,
  \<^verbatim>\<open>visualTransform\<close> returns a view model with exactly
  \<open>max (length of the category column) (length of the value column)\<close> data points.
  Point \<open>i\<close> has the category cell \<open>i\<close> and the value cell \<open>i\<close>
  (\<^verbatim>\<open>undefined\<close> beyond the end of the shorter column), the colour the palette
  answers for that category cell when the loop reaches row \<open>i\<close>, and the handle the
  builder makes for the category column and row \<open>i\<close>. When the builder gives different
  rows different handles, the handles of the data points are pairwise distinct; so
  \<open>N\<close> pairs of a category and a value give \<open>N\<close> data points with a handle each.
  (A payload with an empty \<^verbatim>\<open>values\<close> array, which the guard lets through, has
  no value series; it is treated with the guard, above.)
\<close>

theorem visualTransform_data_points:
  assumes "guard options = Inr False" and "first_category options = Some cat"
    and "first_value_column options = Some dataValue"
  shows "\<exists>vm h'. visualTransform host options h = Inr (vm, h')
    \<and> length (dataPoints vm) = max (length (cat_values cat)) (length (val_values dataValue))
    \<and> (\<forall>i < length (dataPoints vm).
          category (dataPoints vm ! i) = js_index (cat_values cat) i
        \<and> value' (dataPoints vm ! i) = js_index (val_values dataValue) i
        \<and> color (dataPoints vm ! i) =
            palette_color host (js_index (cat_values cat) i) (host_before host cat dataValue i h)
        \<and> selectionID (dataPoints vm ! i) =
            selection_handle host cat i
              (snd (getColor host (js_index (cat_values cat) i) (host_before host cat dataValue i h))))
    \<and> (handles_distinct host cat \<longrightarrow> distinct (map selectionID (dataPoints vm)))"
proof -
  let ?len = "max (length (cat_values cat)) (length (val_values dataValue))"
  let ?dps = "fst (points_loop host cat dataValue 0 ?len [] h)"
  let ?vm = "\<lparr>dataPoints = ?dps, dataMax = maxLocal dataValue\<rparr>"
  have run: "visualTransform host options h = Inr (?vm, snd (points_loop host cat dataValue 0 ?len [] h))"
    by (rule visualTransform_valid [OF assms])
  have len: "length ?dps = ?len" by (simp add: points_loop_length)
  have pt: "?dps ! i = fst (make_point host cat dataValue i (host_before host cat dataValue i h))"
    if "i < ?len" for i using that by (rule points_loop_nth)
  have fields: "category (?dps ! i) = js_index (cat_values cat) i
        \<and> value' (?dps ! i) = js_index (val_values dataValue) i
        \<and> color (?dps ! i) =
            palette_color host (js_index (cat_values cat) i) (host_before host cat dataValue i h)
        \<and> selectionID (?dps ! i) =
            selection_handle host cat i
              (snd (getColor host (js_index (cat_values cat) i) (host_before host cat dataValue i h)))"
    if "i < ?len" for i
    by (simp only: pt [OF that] make_point_fields)
  have dist: "distinct (map selectionID ?dps)" if hd: "handles_distinct host cat"
  proof -
    have "selectionID (?dps ! i) \<noteq> selectionID (?dps ! j)" if "i < ?len" "j < ?len" "i \<noteq> j" for i j
      using that hd fields by (simp add: handles_distinct_def)
    then show ?thesis using len by (simp add: distinct_conv_nth)
  qed
  show ?thesis
    apply (rule exI [of _ ?vm])
    apply (rule exI [of _ "snd (points_loop host cat dataValue 0 ?len [] h)"])
    using run len fields dist by simp
qed

theorem visualTransform_data_points_witness:
  "guard (quarters 20) = Inr False
   \<and> first_category (quarters 20) = Some quarters_column
   \<and> first_value_column (quarters 20) = Some (sales_column 20)
   \<and> (\<exists>vm h'. visualTransform demo_host (quarters 20) demo_start = Inr (vm, h')
        \<and> length (dataPoints vm) = 3
        \<and> category (dataPoints vm ! 2) = JStr ''Q3''
        \<and> value' (dataPoints vm ! 2) = JNum 5
        \<and> distinct (map selectionID (dataPoints vm)))"
proof -
  obtain vm h' where run: "visualTransform demo_host (quarters 20) demo_start = Inr (vm, h')"
    and len: "length (dataPoints vm) =
       max (length (cat_values quarters_column)) (length (val_values (sales_column 20)))"
    and pts: "\<forall>i < length (dataPoints vm).
          category (dataPoints vm ! i) = js_index (cat_values quarters_column) i
        \<and> value' (dataPoints vm ! i) = js_index (val_values (sales_column 20)) i
        \<and> color (dataPoints vm ! i) =
            palette_color demo_host (js_index (cat_values quarters_column) i)
              (host_before demo_host quarters_column (sales_column 20) i demo_start)
        \<and> selectionID (dataPoints vm ! i) =
            selection_handle demo_host quarters_column i
              (snd (getColor demo_host (js_index (cat_values quarters_column) i)
                (host_before demo_host quarters_column (sales_column 20) i demo_start)))"
    and dist: "handles_distinct demo_host quarters_column \<longrightarrow> distinct (map selectionID (dataPoints vm))"
    using visualTransform_data_points
      [OF quarters_valid(1) [of 20] quarters_valid(2) [of 20] quarters_valid(3) [of 20],
        of demo_host demo_start] by blast
  have l3: "length (dataPoints vm) = 3"
    using len by (simp add: quarters_column_def column_of_def sales_column_def)
  have "category (dataPoints vm ! 2) = JStr ''Q3''" "value' (dataPoints vm ! 2) = JNum 5"
    using pts l3 by (simp_all add: quarters_column_def column_of_def sales_column_def js_index_def)
  then show ?thesis
    using run l3 dist demo_handles_distinct quarters_valid [of 20] by auto
qed

subsection \<open>The maximum\<close>

text \<open>
  C5: when a payload passes the guard and \<^verbatim>\<open>visualTransform\<close> returns a view model,
  its \<open>dataMax\<close> is the \<open>maxLocal\<close> of the first value column as the host reported
  it, whatever the cells of the column are.
\<close>

theorem visualTransform_dataMax_is_maxLocal:
  assumes "guard options = Inr False" and "visualTransform host options h = Inr (vm, h')"
  shows "\<exists>dv dvs c dataValue vals. dataViews options = Some (dv # dvs) \<and> categorical dv = Some c
           \<and> value_columns c = Some (dataValue # vals) \<and> dataMax vm = maxLocal dataValue"
  using assms
  by (auto simp: visualTransform_def index0_def Let_def split: option.splits list.splits prod.splits)

text \<open>The host reports 7 for a column whose cells are 10, 20 and 5.\<close>

theorem visualTransform_dataMax_is_maxLocal_witness:
  "guard (quarters 7) = Inr False
   \<and> (\<exists>vm h'. visualTransform demo_host (quarters 7) demo_start = Inr (vm, h')
        \<and> dataMax vm = JNum 7)"
proof -
  obtain vm h' where run: "visualTransform demo_host (quarters 7) demo_start = Inr (vm, h')"
    by (simp add: quarters_run)
  have "dataMax vm = JNum 7"
    using visualTransform_dataMax_is_maxLocal [OF quarters_valid(1) run]
    by (auto simp: quarters_def payload_of_def sales_column_def)
  then show ?thesis using run quarters_valid(1) [of 7] by blast
qed

subsection \<open>Calling twice\<close>

lemma memo_getColor_le:
  "palette_memoized host assigned \<Longrightarrow> assigned h \<subseteq>\<^sub>m assigned (snd (getColor host label h))"
  by (simp add: palette_memoized_def)

lemma memo_getColor_recorded:
  "palette_memoized host assigned \<Longrightarrow>
   assigned (snd (getColor host label h)) label = Some (palette_color host label h)"
  by (simp add: palette_memoized_def palette_color_def)

lemma memo_getColor_known:
  assumes "palette_memoized host assigned" and "assigned h label = Some c"
  shows "palette_color host label h = c"
proof -
  have "assigned (snd (getColor host label h)) label = assigned h label"
    using memo_getColor_le [OF assms(1), of h label] assms(2)
    by (auto simp: map_le_def dom_def)
  then show ?thesis
    using memo_getColor_recorded [OF assms(1), of label h] assms(2) by simp
qed

lemma memo_make_point_le:
  assumes "palette_memoized host assigned"
  shows "assigned h \<subseteq>\<^sub>m assigned (snd (make_point host cat dv i h))"
proof -
  let ?h1 = "snd (getColor host (js_index (cat_values cat) i) h)"
  let ?h2 = "snd (createSelectionIdBuilder host ?h1)"
  let ?b = "withCategory host (fst (createSelectionIdBuilder host ?h1)) cat i"
  have eq: "snd (make_point host cat dv i h) = snd (createSelectionId host ?b ?h2)"
    by (simp add: make_point_def Let_def case_prod_beta)
  have "assigned h \<subseteq>\<^sub>m assigned ?h1" using assms by (simp add: palette_memoized_def)
  also have "assigned ?h1 \<subseteq>\<^sub>m assigned ?h2" using assms by (simp add: palette_memoized_def)
  also have "assigned ?h2 \<subseteq>\<^sub>m assigned (snd (createSelectionId host ?b ?h2))"
    using assms by (simp add: palette_memoized_def)
  finally show ?thesis by (simp add: eq)
qed

lemma memo_make_point_recorded:
  assumes "palette_memoized host assigned"
  shows "assigned (snd (make_point host cat dv i h)) (js_index (cat_values cat) i) =
         Some (color (fst (make_point host cat dv i h)))"
proof -
  let ?l = "js_index (cat_values cat) i"
  let ?h1 = "snd (getColor host ?l h)"
  let ?h2 = "snd (createSelectionIdBuilder host ?h1)"
  let ?b = "withCategory host (fst (createSelectionIdBuilder host ?h1)) cat i"
  have eq: "snd (make_point host cat dv i h) = snd (createSelectionId host ?b ?h2)"
    by (simp add: make_point_def Let_def case_prod_beta)
  have "assigned ?h1 \<subseteq>\<^sub>m assigned ?h2" using assms by (simp add: palette_memoized_def)
  also have "assigned ?h2 \<subseteq>\<^sub>m assigned (snd (createSelectionId host ?b ?h2))"
    using assms by (simp add: palette_memoized_def)
  finally have le: "assigned ?h1 \<subseteq>\<^sub>m assigned (snd (make_point host cat dv i h))"
    by (simp add: eq)
  have "assigned ?h1 ?l = Some (palette_color host ?l h)"
    by (rule memo_getColor_recorded [OF assms])
  then have "assigned (snd (make_point host cat dv i h)) ?l = Some (palette_color host ?l h)"
    using le by (auto simp: map_le_def dom_def)
  then show ?thesis by (simp add: make_point_fields)
qed

lemma memo_points_loop_le:
  assumes "palette_memoized host assigned"
  shows "assigned h \<subseteq>\<^sub>m assigned (snd (points_loop host cat dv i len acc h))"
proof (induction "len - i" arbitrary: i acc h)
  case 0
  then show ?case by (simp add: points_loop_done)
next
  case (Suc n)
  then have lt: "i < len" and n: "n = len - Suc i" by simp_all
  have "assigned h \<subseteq>\<^sub>m assigned (snd (make_point host cat dv i h))"
    by (rule memo_make_point_le [OF assms])
  also have "\<dots> \<subseteq>\<^sub>m assigned (snd (points_loop host cat dv i len acc h))"
    using Suc.hyps(1) [OF n] by (simp add: points_loop_step [OF lt])
  finally show ?case .
qed

lemma memo_points_loop_recorded:
  assumes "palette_memoized host assigned" and "k < len"
  shows "assigned (snd (points_loop host cat dv 0 len [] h)) (js_index (cat_values cat) k) =
         Some (color (fst (points_loop host cat dv 0 len [] h) ! k))"
proof -
  let ?l = "js_index (cat_values cat) k"
  let ?a = "fst (points_loop host cat dv 0 k [] h)"
  let ?h = "host_before host cat dv k h"
  let ?mp = "make_point host cat dv k ?h"
  have "points_loop host cat dv 0 len [] h = points_loop host cat dv k len ?a ?h"
    using assms(2) by (simp add: points_loop_split [of 0 k len] host_before_def)
  also have "\<dots> = points_loop host cat dv (Suc k) len (?a @ [fst ?mp]) (snd ?mp)"
    by (rule points_loop_step [OF assms(2)])
  finally have run: "points_loop host cat dv 0 len [] h =
      points_loop host cat dv (Suc k) len (?a @ [fst ?mp]) (snd ?mp)" .
  have "assigned (snd ?mp) \<subseteq>\<^sub>m assigned (snd (points_loop host cat dv 0 len [] h))"
    unfolding run by (rule memo_points_loop_le [OF assms(1)])
  moreover have "assigned (snd ?mp) ?l = Some (color (fst ?mp))"
    by (rule memo_make_point_recorded [OF assms(1)])
  ultimately have "assigned (snd (points_loop host cat dv 0 len [] h)) ?l = Some (color (fst ?mp))"
    by (auto simp: map_le_def dom_def)
  then show ?thesis by (simp add: points_loop_nth [OF assms(2)])
qed

lemma memo_points_loop_known:
  assumes "palette_memoized host assigned" and "k < len"
    and "assigned h (js_index (cat_values cat) k) = Some c"
  shows "color (fst (points_loop host cat dv 0 len [] h) ! k) = c"
proof -
  have "assigned h \<subseteq>\<^sub>m assigned (host_before host cat dv k h)"
    unfolding host_before_def by (rule memo_points_loop_le [OF assms(1)])
  then have "assigned (host_before host cat dv k h) (js_index (cat_values cat) k) = Some c"
    using assms(3) by (auto simp: map_le_def dom_def)
  then have "palette_color host (js_index (cat_values cat) k) (host_before host cat dv k h) = c"
    by (rule memo_getColor_known [OF assms(1)])
  then show ?thesis by (simp add: points_loop_nth [OF assms(2)] make_point_fields)
qed

lemma visualTransform_twice_eq:
  assumes memo: "palette_memoized host assigned"
    and first: "visualTransform host options h = Inr (vm1, h1)"
    and second: "visualTransform host options h1 = Inr (vm2, h2)"
  shows "map (\<lambda>p. (category p, value' p, color p)) (dataPoints vm1) =
         map (\<lambda>p. (category p, value' p, color p)) (dataPoints vm2)"
  using first
proof (cases rule: visualTransform_cases [consumes 1, case_names empty points])
  case empty
  then have "guard options = Inr True" by simp
  then have "vm2 = dataInfo" using second by (simp add: visualTransform_def)
  then show ?thesis using empty by simp
next
  case (points cat dataValue)
  let ?len = "max (length (cat_values cat)) (length (val_values dataValue))"
  let ?d1 = "fst (points_loop host cat dataValue 0 ?len [] h)"
  let ?d2 = "fst (points_loop host cat dataValue 0 ?len [] h1)"
  let ?f = "\<lambda>p::'c BarChartDataPoint. (category p, value' p, color p)"
  have r1: "dataPoints vm1 = ?d1" "h1 = snd (points_loop host cat dataValue 0 ?len [] h)"
    using first unfolding visualTransform_valid [OF points] by auto
  have r2: "dataPoints vm2 = ?d2"
    using second unfolding visualTransform_valid [OF points] by auto
  have l1: "length ?d1 = ?len" and l2: "length ?d2 = ?len"
    by (simp_all add: points_loop_length)
  have "?f (?d1 ! k) = ?f (?d2 ! k)" if k: "k < ?len" for k
  proof -
    have "assigned h1 (js_index (cat_values cat) k) = Some (color (?d1 ! k))"
      unfolding r1(2) by (rule memo_points_loop_recorded [OF memo k])
    then have "color (?d2 ! k) = color (?d1 ! k)"
      by (rule memo_points_loop_known [OF memo k])
    then show ?thesis by (simp add: points_loop_pure_fields [OF k])
  qed
  then have "map ?f ?d1 = map ?f ?d2"
    using l1 l2 by (simp add: list_eq_iff_nth_eq)
  then show ?thesis by (simp add: r1(1) r2)
qed

text \<open>Whether the function returns depends on the payload alone.\<close>

lemma visualTransform_returns_again:
  assumes "visualTransform host options h = Inr (vm, h')"
  shows "\<exists>vm2 h2. visualTransform host options g = Inr (vm2, h2)"
  using assms
proof (cases rule: visualTransform_cases [consumes 1, case_names empty points])
  case empty
  then show ?thesis by (simp add: visualTransform_def)
next
  case (points cat dataValue)
  then show ?thesis by (simp add: visualTransform_valid)
qed

text \<open>
  C7: with a palette that memoises, when a call of \<^verbatim>\<open>visualTransform\<close> has
  returned, a second call on the same payload, made in the host state the first call
  left, returns too, and its data points agree with the first call's in category, value
  and colour, position by position.
\<close>

theorem visualTransform_twice:
  assumes memo: "palette_memoized host assigned"
    and first: "visualTransform host options h = Inr (vm1, h1)"
  shows "\<exists>vm2 h2. visualTransform host options h1 = Inr (vm2, h2)
    \<and> map (\<lambda>p. (category p, value' p, color p)) (dataPoints vm1) =
       map (\<lambda>p. (category p, value' p, color p)) (dataPoints vm2)"
proof -
  obtain vm2 h2 where second: "visualTransform host options h1 = Inr (vm2, h2)"
    using visualTransform_returns_again [OF first] by blast
  have "map (\<lambda>p. (category p, value' p, color p)) (dataPoints vm1) =
       map (\<lambda>p. (category p, value' p, color p)) (dataPoints vm2)"
    by (rule visualTransform_twice_eq [OF memo first second])
  with second show ?thesis by (intro exI conjI)
qed

theorem visualTransform_twice_witness:
  "palette_memoized demo_host (\<lambda>h. map_of (registry h))
   \<and> visualTransform demo_host (quarters 20) demo_start =
       Inr (\<lparr>dataPoints = quarters_points, dataMax = JNum 20\<rparr>, served [])
   \<and> (\<exists>vm2 h2. visualTransform demo_host (quarters 20) (served []) = Inr (vm2, h2)
        \<and> map (\<lambda>p. (category p, value' p, color p)) quarters_points =
           map (\<lambda>p. (category p, value' p, color p)) (dataPoints vm2))
   \<and> map color quarters_points = [''#01B8AA'', ''#374649'', ''#FD625E'']"
proof -
  have r1: "visualTransform demo_host (quarters 20) demo_start =
       Inr (\<lparr>dataPoints = quarters_points, dataMax = JNum 20\<rparr>, served [])"
    by (simp add: quarters_run quarters_points_def served_def)
  have c: "map color quarters_points = [''#01B8AA'', ''#374649'', ''#FD625E'']"
    by (simp add: quarters_points_def)
  have "\<exists>vm2 h2. visualTransform demo_host (quarters 20) (served []) = Inr (vm2, h2)
        \<and> map (\<lambda>p. (category p, value' p, color p)) quarters_points =
           map (\<lambda>p. (category p, value' p, color p)) (dataPoints vm2)"
    using visualTransform_twice [OF demo_memo r1] by simp
  then show ?thesis using demo_memo r1 c by (intro conjI)
qed

section \<open>Properties of \<^verbatim>\<open>Visual.update\<close>\<close>

subsection \<open>The join\<close>

lemma joined_simps:
  "joined (e # es) (d # ds) = e\<lparr>datum := d\<rparr> # joined es ds"
  "joined [] ds = map enter_append ds"
  "joined es [] = []"
  by (cases es; simp add: joined_def split: prod.splits)+

lemma joined_length: "length (joined es ds) = length ds"
  by (induction es ds rule: data_join.induct) (simp_all add: joined_simps)

lemma joined_nth:
  "i < length ds \<Longrightarrow>
   joined es ds ! i =
     (if i < length es then (es ! i)\<lparr>datum := ds ! i\<rparr> else enter_append (ds ! i))"
proof (induction es ds arbitrary: i rule: data_join.induct)
  case (1 e es d ds)
  then show ?case by (cases i) (simp_all add: joined_simps)
next
  case (2 ds)
  then show ?case by (simp add: joined_simps)
next
  case (3 es)
  then show ?case by simp
qed

subsection \<open>What an update computes\<close>

lemma update_Inr:
  assumes "visualTransform host options h = Inr (vm, h')"
  shows "update rt host this options h = Inr (this
      \<lparr>settings := Some (settings_of rt options),
       svg_size := Some (width (viewport options), height (viewport options)),
       xAxis_font_size := Some (min (plot_height (settings_of rt options) (height (viewport options)))
          (width (viewport options)) * 0.04),
       xAxis_transform := Some (0, plot_height (settings_of rt options) (height (viewport options))),
       xAxis_scale := Some (xScale rt (dataPoints vm) (width (viewport options))),
       barContainer := map (\<lambda>e. e\<lparr>click_listener := True\<rparr>)
         (map (bar_attr rt (dataMax vm)
                (plot_height (settings_of rt options) (height (viewport options)))
                (xScale rt (dataPoints vm) (width (viewport options))))
           (joined (barContainer this) (dataPoints vm)))\<rparr>, h')"
  using assms
  by (simp add: update_def settings_of_def joined_def Let_def split: prod.splits)

lemma update_result:
  assumes "update rt host this options h = Inr (this', h')"
  obtains vm where "visualTransform host options h = Inr (vm, h')"
    and "this' = this
      \<lparr>settings := Some (settings_of rt options),
       svg_size := Some (width (viewport options), height (viewport options)),
       xAxis_font_size := Some (min (plot_height (settings_of rt options) (height (viewport options)))
          (width (viewport options)) * 0.04),
       xAxis_transform := Some (0, plot_height (settings_of rt options) (height (viewport options))),
       xAxis_scale := Some (xScale rt (dataPoints vm) (width (viewport options))),
       barContainer := map (\<lambda>e. e\<lparr>click_listener := True\<rparr>)
         (map (bar_attr rt (dataMax vm)
                (plot_height (settings_of rt options) (height (viewport options)))
                (xScale rt (dataPoints vm) (width (viewport options))))
           (joined (barContainer this) (dataPoints vm)))\<rparr>"
  using assms
  by (auto simp: update_def settings_of_def joined_def Let_def split: sum.splits prod.splits)

lemma update_ok:
  assumes "visualTransform host options h = Inr (vm, h')"
  shows "\<exists>this'. update rt host this options h = Inr (this', h')"
  using assms by (simp add: update_def Let_def split: prod.splits)

lemma update_bars:
  assumes "update rt host this options h = Inr (this', h')"
    and "visualTransform host options h = Inr (vm, h'')"
  shows "barContainer this' = map (\<lambda>e. e\<lparr>click_listener := True\<rparr>)
         (map (bar_attr rt (dataMax vm)
                (plot_height (settings_of rt options) (height (viewport options)))
                (xScale rt (dataPoints vm) (width (viewport options))))
           (joined (barContainer this) (dataPoints vm)))"
proof -
  obtain vm0 where "visualTransform host options h = Inr (vm0, h')"
    and "barContainer this' = map (\<lambda>e. e\<lparr>click_listener := True\<rparr>)
         (map (bar_attr rt (dataMax vm0)
                (plot_height (settings_of rt options) (height (viewport options)))
                (xScale rt (dataPoints vm0) (width (viewport options))))
           (joined (barContainer this) (dataPoints vm0)))"
    by (rule update_result [OF assms(1)]) simp
  then show ?thesis using assms(2) by simp
qed

lemma update_fields:
  assumes "update rt host this options h = Inr (this', h')"
  shows "settings this' = Some (settings_of rt options)"
    and "svg_size this' = Some (width (viewport options), height (viewport options))"
    and "xAxis_font_size this' =
      Some (min (plot_height (settings_of rt options) (height (viewport options)))
          (width (viewport options)) * 0.04)"
    and "xAxis_transform this' =
      Some (0, plot_height (settings_of rt options) (height (viewport options)))"
  by (rule update_result [OF assms], simp)+

lemma update_axis_scale:
  assumes "update rt host this options h = Inr (this', h')"
    and "visualTransform host options h = Inr (vm, h'')"
  shows "xAxis_scale this' = Some (xScale rt (dataPoints vm) (width (viewport options)))"
proof -
  obtain vm0 where "visualTransform host options h = Inr (vm0, h')"
    and "xAxis_scale this' = Some (xScale rt (dataPoints vm0) (width (viewport options)))"
    by (rule update_result [OF assms(1)]) simp
  then show ?thesis using assms(2) by simp
qed

lemma update_bars_length:
  assumes "update rt host this options h = Inr (this', h')"
    and "visualTransform host options h = Inr (vm, h'')"
  shows "length (barContainer this') = length (dataPoints vm)"
  by (simp add: update_bars [OF assms] joined_length)

lemma update_bar_nth:
  assumes "update rt host this options h = Inr (this', h')"
    and "visualTransform host options h = Inr (vm, h'')"
    and "i < length (dataPoints vm)"
  shows "barContainer this' ! i =
    \<lparr>datum = dataPoints vm ! i,
     geometry = Some
      \<lparr>attr_width = o_rangeBand (xScale rt (dataPoints vm) (width (viewport options))),
       attr_height = map_option
          (\<lambda>y. plot_height (settings_of rt options) (height (viewport options)) - y)
          (yScale rt (dataMax vm) (plot_height (settings_of rt options) (height (viewport options)))
             (value' (dataPoints vm ! i))),
       attr_x = scale_ordinal (xScale rt (dataPoints vm) (width (viewport options)))
          (ToString rt (category (dataPoints vm ! i))),
       attr_y = yScale rt (dataMax vm)
          (plot_height (settings_of rt options) (height (viewport options)))
          (value' (dataPoints vm ! i)),
       attr_fill = color (dataPoints vm ! i)\<rparr>,
     fill_opacity = (if i < length (barContainer this) then fill_opacity (barContainer this ! i) else None),
     click_listener = True\<rparr>"
  using assms(3)
  by (simp add: update_bars [OF assms(1,2)] joined_length joined_nth bar_attr_def enter_append_def)

lemma plot_height_if:
  "plot_height s hh = (if showAxis (dataPoint s) then hh - 25 else hh)"
  by (simp add: plot_height_def)

subsection \<open>The scales\<close>

lemma ordinal_domain_distinct: "distinct dm \<Longrightarrow> distinct (ordinal_domain xs dm)"
  by (induction xs dm rule: ordinal_domain.induct) simp_all

lemma ordinal_domain_set: "set (ordinal_domain xs dm) = set xs \<union> set dm"
  by (induction xs dm rule: ordinal_domain.induct) auto

lemma index_get_nth:
  "distinct dm \<Longrightarrow> k < length dm \<Longrightarrow> index_get dm (dm ! k) = Some (Suc k)"
proof (induction dm arbitrary: k)
  case Nil
  then show ?case by simp
next
  case (Cons d ds)
  show ?case
  proof (cases k)
    case 0
    then show ?thesis by simp
  next
    case (Suc j)
    then have "j < length ds" using Cons.prems by simp
    moreover have "d \<noteq> ds ! j" using Cons.prems \<open>j < length ds\<close> by auto
    ultimately show ?thesis using Cons Suc by simp
  qed
qed

lemma rangeRoundBands_bands:
  fixes fl :: "real \<Rightarrow> real" and dm :: "string list" and w p q :: real
  defines "step \<equiv> Math_floor (fl (fl w / fl (fl (real (length dm) - p) + fl (2 * q))))"
  defines "r \<equiv> Math_round (fl (fl (fl w - fl (fl (real (length dm) - p) * step)) / 2))"
  assumes "0 \<le> w"
  shows "o_domain (rangeRoundBands fl dm (0, w) p q) = dm"
    and "o_range (rangeRoundBands fl dm (0, w) p q) =
           map (\<lambda>i. fl (fl r + fl (step * real i))) [0..<length dm]"
    and "o_rangeBand (rangeRoundBands fl dm (0, w) p q) = Math_round (fl (step * fl (1 - p)))"
  using assms by (simp_all add: rangeRoundBands_def Let_def step_def r_def)

lemma scale_ordinal_band:
  fixes fl :: "real \<Rightarrow> real" and dm :: "string list" and w p q :: real
  defines "step \<equiv> Math_floor (fl (fl w / fl (fl (real (length dm) - p) + fl (2 * q))))"
  defines "r \<equiv> Math_round (fl (fl (fl w - fl (fl (real (length dm) - p) * step)) / 2))"
  assumes "0 \<le> w" "distinct dm" "k < length dm"
  shows "scale_ordinal (rangeRoundBands fl dm (0, w) p q) (dm ! k) =
           Some (fl (fl r + fl (step * real k)))"
proof -
  have "dm \<noteq> []" using assms(5) by auto
  then show ?thesis
    using assms(3-5) unfolding step_def r_def
    by (simp add: scale_ordinal_def rangeRoundBands_bands index_get_nth)
qed

text \<open>
  Whole numbers below \<open>2 ^ 53\<close> are doubles, so sums and products of whole numbers
  that stay below it are exact.
\<close>

lemma whole_band_start:
  fixes fl :: "real \<Rightarrow> real"
  assumes ex: "\<forall>m::nat. m < 2 ^ 53 \<longrightarrow> fl (real m) = real m"
    and r: "0 \<le> Math_round x" and st: "0 \<le> Math_floor y"
    and lt: "Math_round x + Math_floor y * real k < 2 ^ 53"
  shows "fl (fl (Math_round x) + fl (Math_floor y * real k)) =
           Math_round x + Math_floor y * real k"
proof -
  define a where "a = nat \<lfloor>x + 1 / 2\<rfloor>"
  define b where "b = nat \<lfloor>y\<rfloor>"
  have A: "Math_round x = real a" using r by (simp add: Math_round_def a_def)
  have B: "Math_floor y = real b" using st by (simp add: Math_floor_def b_def)
  have "real (a + b * k) < real ((2::nat) ^ 53)" using lt unfolding A B by simp
  then have l: "a + b * k < 2 ^ 53" by (simp only: of_nat_less_iff)
  then have "a < 2 ^ 53" "b * k < 2 ^ 53" by simp_all
  then have e: "fl (real a) = real a" "fl (real (b * k)) = real (b * k)"
    "fl (real (a + b * k)) = real (a + b * k)"
    using ex l by blast+
  have "fl (fl (real a) + fl (real b * real k)) = real a + real b * real k"
    using e by (simp only: of_nat_add of_nat_mult)
  then show ?thesis unfolding A B .
qed

lemma yScale_linear:
  assumes "m \<noteq> 0"
  shows "yScale rt (JNum m) ph (JNum v) = Some (ph - v / m * ph)"
  using assms by (simp add: yScale_def scale_linear_def ToNumber_def Let_def algebra_simps)

lemma yScale_flat: "yScale rt (JNum 0) ph (JNum v) = Some ph"
  by (simp add: yScale_def scale_linear_def ToNumber_def)

lemma xScale_fields:
  "o_domain (xScale rt dps w) = ordinal_domain (map (\<lambda>d. ToString rt (category d)) dps) []"
  by (simp add: xScale_def rangeRoundBands_def Let_def)

lemma xScale_distinct: "distinct (o_domain (xScale rt dps w))"
  by (simp add: xScale_fields ordinal_domain_distinct)

lemma xScale_label:
  assumes "i < length dps"
  shows "\<exists>k < length (o_domain (xScale rt dps w)).
            o_domain (xScale rt dps w) ! k = ToString rt (category (dps ! i))"
proof -
  have "ToString rt (category (dps ! i)) \<in> set (o_domain (xScale rt dps w))"
    using assms by (simp add: xScale_fields ordinal_domain_set)
  then show ?thesis by (auto simp: in_set_conv_nth)
qed

text \<open>The domain keeps the first occurrence of every label, in order.\<close>

lemma remdups_snoc: "remdups (ys @ [x]) = remdups (filter (\<lambda>y. y \<noteq> x) ys) @ [x]"
  by (induction ys) auto

lemma ordinal_domain_remdups:
  "distinct dm \<Longrightarrow>
   ordinal_domain xs dm = dm @ rev (remdups (rev (filter (\<lambda>x. x \<notin> set dm) xs)))"
proof (induction xs dm rule: ordinal_domain.induct)
  case (1 dm)
  then show ?case by simp
next
  case (2 x xs dm)
  show ?case
  proof (cases "x \<in> set dm")
    case True
    then show ?thesis using 2 by simp
  next
    case False
    show ?thesis using 2 False by (simp add: remdups_snoc rev_filter conj_commute)
  qed
qed

lemma xScale_domain:
  "o_domain (xScale rt dps w) = rev (remdups (rev (map (\<lambda>d. ToString rt (category d)) dps)))"
  by (simp add: xScale_fields ordinal_domain_remdups)

lemma xScale_bands:
  fixes rt :: runtime and w :: real and dps :: "'sid BarChartDataPoint list"
  defines "fl \<equiv> double rt"
  defines "n \<equiv> real (length (o_domain (xScale rt dps w)))"
  defines "step \<equiv> Math_floor (fl (fl w / fl (fl (n - fl 0.1) + fl (2 * fl 0.2))))"
  defines "r \<equiv> Math_round (fl (fl (fl w - fl (fl (n - fl 0.1) * step)) / 2))"
  assumes "0 \<le> w"
  shows "o_rangeBand (xScale rt dps w) = Math_round (fl (step * fl (1 - fl 0.1)))"
    and "k < length (o_domain (xScale rt dps w)) \<Longrightarrow>
      scale_ordinal (xScale rt dps w) (o_domain (xScale rt dps w) ! k) =
        Some (fl (fl r + fl (step * real k)))"
proof -
  let ?dm = "ordinal_domain (map (\<lambda>d. ToString rt (category d)) dps) []"
  have x: "xScale rt dps w = rangeRoundBands (double rt) ?dm (0, w) (double rt 0.1) (double rt 0.2)"
    by (simp add: xScale_def)
  have d: "o_domain (xScale rt dps w) = ?dm" by (rule xScale_fields)
  show "o_rangeBand (xScale rt dps w) = Math_round (fl (step * fl (1 - fl 0.1)))"
    unfolding step_def n_def fl_def d unfolding x
    by (rule rangeRoundBands_bands(3) [OF assms(5)])
  show "scale_ordinal (xScale rt dps w) (o_domain (xScale rt dps w) ! k) =
        Some (fl (fl r + fl (step * real k)))"
    if "k < length (o_domain (xScale rt dps w))"
    using that unfolding r_def step_def n_def fl_def d unfolding x
    by (intro scale_ordinal_band [OF assms(5)]) (simp_all add: ordinal_domain_distinct)
qed

lemma xScale_whole_bands:
  fixes rt :: runtime and w :: real and dps :: "'sid BarChartDataPoint list"
  defines "fl \<equiv> double rt"
  defines "n \<equiv> real (length (o_domain (xScale rt dps w)))"
  defines "step \<equiv> Math_floor (fl (fl w / fl (fl (n - fl 0.1) + fl (2 * fl 0.2))))"
  defines "r \<equiv> Math_round (fl (fl (fl w - fl (fl (n - fl 0.1) * step)) / 2))"
  assumes "0 \<le> w" and "\<forall>m::nat. m < 2 ^ 53 \<longrightarrow> fl (real m) = real m"
    and "0 \<le> step" and "0 \<le> r"
    and "k < length (o_domain (xScale rt dps w))" and "r + step * real k < 2 ^ 53"
  shows "scale_ordinal (xScale rt dps w) (o_domain (xScale rt dps w) ! k) =
           Some (r + step * real k)"
proof -
  have "scale_ordinal (xScale rt dps w) (o_domain (xScale rt dps w) ! k) =
        Some (fl (fl r + fl (step * real k)))"
    unfolding r_def step_def n_def fl_def by (rule xScale_bands(2) [OF assms(5) assms(9)])
  moreover have "fl (fl r + fl (step * real k)) = r + step * real k"
    using assms(6-8,10) unfolding r_def step_def by (intro whole_band_start)
  ultimately show ?thesis by simp
qed

subsection \<open>Rounding to a double\<close>

lemma round_half_even_of_int: "round_half_even (of_int m) = m"
  by (simp add: round_half_even_def)

lemma two_powr_minus: "(2::real) powr (- real k) = 1 / 2 ^ k"
  by (simp add: powr_minus_divide powr_realpow)

lemma floor_log2_pos:
  fixes x :: real
  assumes "2 ^ k \<le> x" "x < 2 ^ Suc k"
  shows "\<lfloor>log 2 \<bar>x\<bar>\<rfloor> = int k"
proof -
  have x: "0 < x" using assms(1) by (rule less_le_trans [OF zero_less_power, rotated]) simp
  have "(2::real) powr real_of_int (int k) = 2 ^ k" by (simp add: powr_realpow)
  moreover have "(2::real) powr real_of_int (int k + 1) = 2 ^ Suc k"
    using powr_realpow [of 2 "Suc k"] by (simp add: add.commute)
  ultimately have "2 powr real_of_int (int k) \<le> x \<and> x < 2 powr real_of_int (int k + 1)"
    using assms by simp
  then show ?thesis using x by (simp only: floor_log_eq_powr_iff abs_of_pos)
qed

lemma floor_log2_frac:
  fixes x :: real
  assumes "1 / 2 ^ k \<le> x" "x < 2 / 2 ^ k"
  shows "\<lfloor>log 2 \<bar>x\<bar>\<rfloor> = - int k"
proof -
  have x: "0 < x" using assms(1) by (rule less_le_trans [rotated]) simp
  have "(2::real) powr real_of_int (- int k) = 1 / 2 ^ k"
    using two_powr_minus [of k] by simp
  moreover have "(2::real) powr real_of_int (- int k + 1) = 2 / 2 ^ k"
    using powr_add [of "2::real" 1 "- real k"] two_powr_minus [of k] by (simp add: add.commute)
  ultimately have "2 powr real_of_int (- int k) \<le> x \<and> x < 2 powr real_of_int (- int k + 1)"
    using assms by simp
  then show ?thesis using x by (simp only: floor_log_eq_powr_iff abs_of_pos)
qed

text \<open>
  A number in \<open>[2 ^ k, 2 ^ (k + 1))\<close> is rounded to a multiple of \<open>2 ^ (k - 52)\<close>,
  and a number in \<open>[2 ^ - k, 2 ^ (1 - k))\<close> to a multiple of \<open>2 ^ - (k + 52)\<close>.
\<close>

lemma binary64_ge1:
  fixes x :: real
  assumes "2 ^ k \<le> x" "x < 2 ^ Suc k" "k \<le> 52"
  shows "binary64 x = of_int (round_half_even (x * 2 ^ (52 - k))) / 2 ^ (52 - k)"
proof -
  have "(0::real) < 2 ^ k" by simp
  with assms(1) have x: "x \<noteq> 0" by linarith
  have "real_of_int (int k) - 52 = - real (52 - k)" using assms(3) by simp
  then have u: "(2::real) powr (real_of_int (int k) - 52) = 1 / 2 ^ (52 - k)"
    by (simp only: two_powr_minus)
  show ?thesis
    unfolding binary64_def floor_log2_pos [OF assms(1,2)] u using x by simp
qed

lemma binary64_lt1:
  fixes x :: real
  assumes "1 / 2 ^ k \<le> x" "x < 2 / 2 ^ k"
  shows "binary64 x = of_int (round_half_even (x * 2 ^ (52 + k))) / 2 ^ (52 + k)"
proof -
  have "0 < x" using assms(1) by (rule less_le_trans [rotated]) simp
  then have x: "x \<noteq> 0" by simp
  have "real_of_int (- int k) - 52 = - real (52 + k)" by simp
  then have u: "(2::real) powr (real_of_int (- int k) - 52) = 1 / 2 ^ (52 + k)"
    by (simp only: two_powr_minus)
  show ?thesis
    unfolding binary64_def floor_log2_frac [OF assms] u using x by simp
qed

lemma binary64_0: "binary64 0 = 0"
  by (simp add: binary64_def)

lemma binary64_nat:
  assumes "0 < m" "m < 2 ^ 53"
  shows "binary64 (real m) = real m"
proof -
  obtain k where k: "2 ^ k \<le> m" "m < 2 ^ (k + 1)"
    using ex_power_ivl1 [of 2 m] assms(1) by auto
  have "(2::nat) ^ k < 2 ^ 53" using k(1) assms(2) by simp
  then have "k < 53" by (rule power_less_imp_less_exp [rotated]) simp
  then have k52: "k \<le> 52" by simp
  have a: "(2::real) ^ k \<le> real m"
    using k(1) by (metis of_nat_le_iff of_nat_numeral of_nat_power)
  have b: "real m < 2 ^ Suc k"
    using k(2) by (metis Suc_eq_plus1 of_nat_less_iff of_nat_numeral of_nat_power)
  have "real m * 2 ^ (52 - k) = of_int (int (m * 2 ^ (52 - k)))" by simp
  then have "round_half_even (real m * 2 ^ (52 - k)) = int (m * 2 ^ (52 - k))"
    by (simp only: round_half_even_of_int)
  then show ?thesis
    unfolding binary64_ge1 [OF a b k52] by simp
qed

lemma binary64_whole: "\<forall>m::nat. m < 2 ^ 53 \<longrightarrow> binary64 (real m) = real m"
proof (intro allI impI)
  fix m :: nat assume "m < 2 ^ 53"
  then show "binary64 (real m) = real m"
    by (cases "m = 0") (simp_all add: binary64_0 binary64_nat)
qed

lemma binary64_numeral:
  "numeral n < (2::nat) ^ 53 \<Longrightarrow> binary64 (numeral n) = numeral n"
  using binary64_nat [of "numeral n"] by simp

text \<open>
  The band layout, one operation after the other: \<open>a\<close> is the width, \<open>d\<close> the
  number of steps the width is divided into, \<open>g\<close> the step before it is rounded
  down, \<open>j\<close> half the remainder before it is rounded, \<open>t\<close> the band width before it
  is rounded.
\<close>

lemma rangeRoundBands_eval:
  fixes fl :: "real \<Rightarrow> real"
  assumes "fl w = a" and "fl (real (length dm) - p) = b" and "fl (2 * q) = c"
    and "fl (b + c) = d" and "fl (a / d) = g" and "Math_floor g = step"
    and "fl (b * step) = hh" and "fl (a - hh) = i" and "fl (i / 2) = j"
    and "Math_round j = r" and "fl r = first"
    and "fl (1 - p) = s" and "fl (step * s) = t" and "Math_round t = band"
    and "0 \<le> w"
  shows "rangeRoundBands fl dm (0, w) p q =
     \<lparr>o_domain = dm,
      o_range = map (\<lambda>i. fl (first + fl (step * real i))) [0..<length dm],
      o_rangeBand = band\<rparr>"
  using assms(15) unfolding rangeRoundBands_def Let_def
  by (simp add: assms(1-14))

text \<open>
  Three labels in a width of 400: the step is 121, the bands are 109 wide and start at
  25, 146 and 267.
\<close>

lemma rangeRoundBands_three_labels_400:
  "rangeRoundBands binary64 [''Q1'', ''Q2'', ''Q3''] (0, 400) (binary64 0.1) (binary64 0.2) =
     \<lparr>o_domain = [''Q1'', ''Q2'', ''Q3''],
      o_range = [25, 146, 267], o_rangeBand = 109\<rparr>"
proof -
  have p: "binary64 0.1 = 3602879701896397 / 36028797018963968"
    by (simp add: binary64_lt1 [where k = 4] round_half_even_def)
  have q: "binary64 0.2 = 3602879701896397 / 18014398509481984"
    by (simp add: binary64_lt1 [where k = 3] round_half_even_def)
  have "rangeRoundBands binary64 [''Q1'', ''Q2'', ''Q3''] (0, 400)
      (3602879701896397 / 36028797018963968) (3602879701896397 / 18014398509481984) =
     \<lparr>o_domain = [''Q1'', ''Q2'', ''Q3''],
      o_range = map (\<lambda>i. binary64 (25 + binary64 (121 * real i)))
        [0..<length [''Q1'', ''Q2'', ''Q3'']],
      o_rangeBand = 109\<rparr>"
    by (rule rangeRoundBands_eval
        [where a = "400" and b = "6530219459687219 / 2251799813685248"
        and c = "3602879701896397 / 9007199254740992"
        and d = "3715469692580659 / 1125899906842624"
        and g = "4264772374403879 / 35184372088832" and step = "121"
        and hh = "3086549041492787 / 8796093022208"
        and i = "431888167390413 / 8796093022208" and j = "431888167390413 / 17592186044416"
        and r = "25" and s = "8106479329266893 / 9007199254740992"
        and t = "3831578120473805 / 35184372088832" and band = "109" and first = "25"])
      (simp_all add: binary64_ge1 [where k = 1]
        binary64_ge1 [where k = 4]
        binary64_ge1 [where k = 5]
        binary64_ge1 [where k = 6]
        binary64_ge1 [where k = 8]
        binary64_lt1 [where k = 1]
        binary64_lt1 [where k = 2]
        binary64_lt1 [where k = 3]
        binary64_lt1 [where k = 4]
        round_half_even_def Math_floor_def Math_round_def)
  then show ?thesis
    unfolding p q by (simp add: upt_rec binary64_numeral binary64_0)
qed

text \<open>
  Five labels in a width of 530: the width divided by 5.3 is 100 in real numbers, and
  a little less than 100 in doubles, so the step is 99, the bands are 89 wide and start
  at 22, 121, 220, 319 and 418.
\<close>

lemma rangeRoundBands_five_labels_530:
  "rangeRoundBands binary64 [''a'', ''b'', ''c'', ''d'', ''e''] (0, 530) (binary64 0.1) (binary64 0.2) =
     \<lparr>o_domain = [''a'', ''b'', ''c'', ''d'', ''e''],
      o_range = [22, 121, 220, 319, 418], o_rangeBand = 89\<rparr>"
proof -
  have p: "binary64 0.1 = 3602879701896397 / 36028797018963968"
    by (simp add: binary64_lt1 [where k = 4] round_half_even_def)
  have q: "binary64 0.2 = 3602879701896397 / 18014398509481984"
    by (simp add: binary64_lt1 [where k = 3] round_half_even_def)
  have "rangeRoundBands binary64 [''a'', ''b'', ''c'', ''d'', ''e''] (0, 530)
      (3602879701896397 / 36028797018963968) (3602879701896397 / 18014398509481984) =
     \<lparr>o_domain = [''a'', ''b'', ''c'', ''d'', ''e''],
      o_range = map (\<lambda>i. binary64 (22 + binary64 (99 * real i)))
        [0..<length [''a'', ''b'', ''c'', ''d'', ''e'']],
      o_rangeBand = 89\<rparr>"
    by (rule rangeRoundBands_eval
        [where a = "530" and b = "2758454771764429 / 562949953421312"
        and c = "3602879701896397 / 9007199254740992"
        and d = "1491817376566477 / 281474976710656"
        and g = "7036874417766399 / 70368744177664" and step = "99"
        and hh = "4266984725073101 / 8796093022208"
        and i = "394944576697139 / 8796093022208" and j = "394944576697139 / 17592186044416"
        and r = "22" and s = "8106479329266893 / 9007199254740992"
        and t = "6269855106229863 / 70368744177664" and band = "89" and first = "22"])
      (simp_all add: binary64_ge1 [where k = 2]
        binary64_ge1 [where k = 4]
        binary64_ge1 [where k = 5]
        binary64_ge1 [where k = 6]
        binary64_ge1 [where k = 8]
        binary64_ge1 [where k = 9]
        binary64_lt1 [where k = 1]
        binary64_lt1 [where k = 2]
        binary64_lt1 [where k = 3]
        binary64_lt1 [where k = 4]
        round_half_even_def Math_floor_def Math_round_def)
  then show ?thesis
    unfolding p q by (simp add: upt_rec binary64_numeral binary64_0)
qed

subsection \<open>The example chart\<close>

lemma quarters_transformed: "visualTransform demo_host (quarters m) demo_start =
    Inr (\<lparr>dataPoints = quarters_points, dataMax = JNum m\<rparr>, served [])"
  by (simp add: quarters_run quarters_points_def served_def)

lemma with_axis_valid:
  "guard (with_axis (quarters m)) = Inr False"
  "first_category (with_axis (quarters m)) = Some quarters_column"
  "first_value_column (with_axis (quarters m)) = Some (sales_column m)"
  by (simp_all add: guard_def first_category_def first_value_column_def index0_def with_axis_def
      quarters_def payload_of_def quarters_column_def column_of_def)

lemma with_axis_run: "visualTransform demo_host (with_axis (quarters m)) demo_start =
    Inr (\<lparr>dataPoints = quarters_points, dataMax = JNum m\<rparr>, served [])"
  using quarters_transformed [of m]
  by (simp add: visualTransform_valid [OF with_axis_valid] visualTransform_valid [OF quarters_valid])

lemma quarters_xScale:
  "xScale demo_runtime quarters_points 400 =
     \<lparr>o_domain = [''Q1'', ''Q2'', ''Q3''], o_range = [25, 146, 267], o_rangeBand = 109\<rparr>"
proof -
  have "ordinal_domain (map (\<lambda>d. ToString demo_runtime (category d)) quarters_points) [] =
      [''Q1'', ''Q2'', ''Q3'']"
    by (simp add: quarters_points_def ToString_def)
  moreover have "double demo_runtime = binary64"
    by (simp add: demo_runtime_def)
  ultimately show ?thesis
    by (simp only: xScale_def rangeRoundBands_three_labels_400)
qed

lemma quarters_settings:
  "settings_of demo_runtime (quarters m) = \<lparr>dataPoint = \<lparr>showAxis = False\<rparr>\<rparr>"
  "settings_of demo_runtime (with_axis (quarters m)) = \<lparr>dataPoint = \<lparr>showAxis = True\<rparr>\<rparr>"
  "settings_of demo_runtime empty_view = \<lparr>dataPoint = \<lparr>showAxis = False\<rparr>\<rparr>"
  by (simp_all add: settings_of_def demo_runtime_def quarters_def with_axis_def payload_of_def
      empty_view_def index0_def)

lemma quarters_viewport:
  "viewport (quarters m) = \<lparr>width = 400, height = 300\<rparr>"
  "viewport (with_axis (quarters m)) = \<lparr>width = 400, height = 300\<rparr>"
  "viewport empty_view = \<lparr>width = 400, height = 300\<rparr>"
  by (simp_all add: quarters_def with_axis_def payload_of_def empty_view_def)

lemma quarters_yScale:
  "yScale demo_runtime (JNum 20) h (JNum v) = Some (h - v / 20 * h)"
  by (rule yScale_linear) simp

lemma quarters_update:
  "update demo_runtime demo_host constructor (quarters 20) demo_start =
     Inr (quarters_visual None None None, served [])"
  apply (subst update_Inr [OF quarters_transformed])
  apply (simp add: quarters_settings quarters_viewport plot_height_def quarters_xScale
      constructor_def)
  apply (simp add: joined_simps quarters_points_def bar_attr_def enter_append_def
      quarters_yScale scale_ordinal_def ToString_def quarters_bars_def quarters_visual_def)
  done

lemma empty_view_guard: "guard empty_view = Inr True"
  by (simp add: guard_def empty_view_def index0_def)

lemma list3: "length xs = 3 \<Longrightarrow> xs = [xs ! 0, xs ! 1, xs ! 2]"
  by (auto simp: length_Suc_conv numeral_3_eq_3)

subsection \<open>The number of bars\<close>

text \<open>
  C9: when an update returns, the bar container holds as many elements as the view model
  of that update has data points, whatever it held before; an update returns whenever
  \<^verbatim>\<open>visualTransform\<close> accepts its payload; and an update whose payload the guard
  sends to the empty view model returns, leaves the host as it was and leaves no bar.
\<close>

theorem update_bar_count:
  "(\<forall>this' h'. update rt host this options h = Inr (this', h') \<longrightarrow>
      (\<exists>vm. visualTransform host options h = Inr (vm, h')
         \<and> length (barContainer this') = length (dataPoints vm)))
   \<and> (\<forall>vm h'. visualTransform host options h = Inr (vm, h') \<longrightarrow>
      (\<exists>this'. update rt host this options h = Inr (this', h')
         \<and> length (barContainer this') = length (dataPoints vm)))
   \<and> (guard options = Inr True \<longrightarrow>
      (\<exists>this'. update rt host this options h = Inr (this', h) \<and> barContainer this' = []))"
proof (intro conjI allI impI)
  fix this' h'
  assume upd: "update rt host this options h = Inr (this', h')"
  then obtain vm where run: "visualTransform host options h = Inr (vm, h')"
    by (rule update_result)
  show "\<exists>vm. visualTransform host options h = Inr (vm, h')
         \<and> length (barContainer this') = length (dataPoints vm)"
    using run update_bars_length [OF upd run] by blast
next
  fix vm h'
  assume run: "visualTransform host options h = Inr (vm, h')"
  obtain this' where upd: "update rt host this options h = Inr (this', h')"
    using update_ok [OF run] by blast
  show "\<exists>this'. update rt host this options h = Inr (this', h')
         \<and> length (barContainer this') = length (dataPoints vm)"
    using upd update_bars_length [OF upd run] by blast
next
  assume "guard options = Inr True"
  then have run: "visualTransform host options h = Inr (dataInfo, h)"
    by (simp add: visualTransform_def)
  show "\<exists>this'. update rt host this options h = Inr (this', h) \<and> barContainer this' = []"
    by (simp add: update_Inr [OF run] dataInfo_def joined_simps)
qed

text \<open>An update with three data points on the fresh chart, then one with an empty data view.\<close>

theorem update_bar_count_witness:
  "update demo_runtime demo_host constructor (quarters 20) demo_start =
     Inr (quarters_visual None None None, served [])
   \<and> length (barContainer (quarters_visual None None None)) = 3
   \<and> guard empty_view = Inr True
   \<and> (\<exists>this'. update demo_runtime demo_host (quarters_visual None None None) empty_view (served [])
          = Inr (this', served []) \<and> barContainer this' = [])"
proof -
  have "\<exists>vm. visualTransform demo_host (quarters 20) demo_start = Inr (vm, served [])
         \<and> length (barContainer (quarters_visual None None None)) = length (dataPoints vm)"
    using update_bar_count [of demo_runtime demo_host constructor "quarters 20" demo_start]
      quarters_update by blast
  then have "length (barContainer (quarters_visual None None None)) = 3"
    by (auto simp: quarters_transformed quarters_points_def)
  moreover have "\<exists>this'. update demo_runtime demo_host (quarters_visual None None None) empty_view
      (served []) = Inr (this', served []) \<and> barContainer this' = []"
    using update_bar_count [of demo_runtime demo_host "quarters_visual None None None" empty_view
        "served []"] empty_view_guard by blast
  ultimately show ?thesis using quarters_update empty_view_guard by blast
qed

subsection \<open>The plotting height\<close>

lemma update_plot_height_returned:
  assumes "update rt host this options h = Inr (this', h')"
    and "visualTransform host options h = Inr (vm, h'')"
  shows "settings this' = Some (settings_of rt options)
    \<and> xAxis_transform this' =
        Some (0, if showAxis (dataPoint (settings_of rt options))
                 then height (viewport options) - 25 else height (viewport options))
    \<and> (\<forall>i < length (barContainer this'). \<exists>g.
          geometry (barContainer this' ! i) = Some g
        \<and> attr_y g = yScale rt (dataMax vm)
            (if showAxis (dataPoint (settings_of rt options))
             then height (viewport options) - 25 else height (viewport options))
            (value' (datum (barContainer this' ! i)))
        \<and> attr_height g = map_option
            (\<lambda>y. (if showAxis (dataPoint (settings_of rt options))
                  then height (viewport options) - 25 else height (viewport options)) - y)
            (attr_y g))"
proof -
  have len: "length (barContainer this') = length (dataPoints vm)"
    by (rule update_bars_length [OF assms])
  show ?thesis
    using update_fields(1,4) [OF assms(1)] len
    by (simp add: update_bar_nth [OF assms] plot_height_if)
qed

text \<open>
  C3: an update with viewport height \<open>H\<close> whose payload \<^verbatim>\<open>visualTransform\<close>
  accepts returns; the stored settings are the parsed ones, the axis group is translated
  to \<open>(0, P)\<close> and every bar has \<open>y = yScale(value)\<close> on a scale whose range
  starts at \<open>P\<close> and \<open>height = P - y\<close>, where \<open>P\<close> is \<open>H - 25\<close> when
  \<^verbatim>\<open>settings.dataPoint.showAxis\<close> is true and \<open>H\<close> when it is false.
\<close>

theorem update_plot_height:
  assumes "visualTransform host options h = Inr (vm, h')"
  shows "\<exists>this'. update rt host this options h = Inr (this', h')
    \<and> settings this' = Some (settings_of rt options)
    \<and> xAxis_transform this' =
        Some (0, if showAxis (dataPoint (settings_of rt options))
                 then height (viewport options) - 25 else height (viewport options))
    \<and> (\<forall>i < length (barContainer this'). \<exists>g.
          geometry (barContainer this' ! i) = Some g
        \<and> attr_y g = yScale rt (dataMax vm)
            (if showAxis (dataPoint (settings_of rt options))
             then height (viewport options) - 25 else height (viewport options))
            (value' (datum (barContainer this' ! i)))
        \<and> attr_height g = map_option
            (\<lambda>y. (if showAxis (dataPoint (settings_of rt options))
                  then height (viewport options) - 25 else height (viewport options)) - y)
            (attr_y g))"
proof -
  obtain this' where upd: "update rt host this options h = Inr (this', h')"
    using update_ok [OF assms] by blast
  show ?thesis
    using upd update_plot_height_returned [OF upd assms] by (intro exI [of _ this']) simp
qed

text \<open>The example chart without the axis band (\<open>P = 300\<close>) and with it (\<open>P = 275\<close>).\<close>

theorem update_plot_height_witness:
  "visualTransform demo_host (quarters 20) demo_start =
     Inr (\<lparr>dataPoints = quarters_points, dataMax = JNum 20\<rparr>, served [])
   \<and> visualTransform demo_host (with_axis (quarters 20)) demo_start =
     Inr (\<lparr>dataPoints = quarters_points, dataMax = JNum 20\<rparr>, served [])
   \<and> (\<exists>this'. update demo_runtime demo_host constructor (quarters 20) demo_start
         = Inr (this', served [])
       \<and> settings this' = Some \<lparr>dataPoint = \<lparr>showAxis = False\<rparr>\<rparr>
       \<and> xAxis_transform this' = Some (0, 300)
       \<and> map (\<lambda>e. map_option attr_height (geometry e)) (barContainer this')
           = [Some (Some 150), Some (Some 300), Some (Some 75)])
   \<and> (\<exists>this' g. update demo_runtime demo_host constructor (with_axis (quarters 20)) demo_start
         = Inr (this', served [])
       \<and> settings this' = Some \<lparr>dataPoint = \<lparr>showAxis = True\<rparr>\<rparr>
       \<and> xAxis_transform this' = Some (0, 275)
       \<and> geometry (barContainer this' ! 1) = Some g
       \<and> attr_y g = Some 0 \<and> attr_height g = Some 275)"
proof -
  have "\<exists>this'. update demo_runtime demo_host constructor (with_axis (quarters 20)) demo_start
         = Inr (this', served [])
      \<and> settings this' = Some \<lparr>dataPoint = \<lparr>showAxis = True\<rparr>\<rparr>
      \<and> xAxis_transform this' = Some (0, 275)
      \<and> (\<forall>i < length (barContainer this'). \<exists>g.
          geometry (barContainer this' ! i) = Some g
        \<and> attr_y g = yScale demo_runtime (JNum 20) 275 (value' (datum (barContainer this' ! i)))
        \<and> attr_height g = map_option (\<lambda>y. 275 - y) (attr_y g))"
    using update_plot_height [OF with_axis_run, of demo_runtime constructor 20]
    by (simp add: quarters_settings quarters_viewport)
  then obtain this' where
    upd: "update demo_runtime demo_host constructor (with_axis (quarters 20)) demo_start
         = Inr (this', served [])"
    and S: "settings this' = Some \<lparr>dataPoint = \<lparr>showAxis = True\<rparr>\<rparr>"
    and T: "xAxis_transform this' = Some (0, 275)"
    and G: "\<forall>i < length (barContainer this'). \<exists>g.
          geometry (barContainer this' ! i) = Some g
        \<and> attr_y g = yScale demo_runtime (JNum 20) 275 (value' (datum (barContainer this' ! i)))
        \<and> attr_height g = map_option (\<lambda>y. 275 - y) (attr_y g)"
    by (elim exE conjE)
  have l: "length (barContainer this') = 3"
    by (simp add: update_bars_length [OF upd with_axis_run] quarters_points_def)
  have d: "value' (datum (barContainer this' ! 1)) = JNum 20"
    by (simp add: update_bar_nth [OF upd with_axis_run] quarters_points_def)
  have "1 < length (barContainer this')" using l by simp
  with G obtain g where "geometry (barContainer this' ! 1) = Some g"
    and "attr_y g = yScale demo_runtime (JNum 20) 275 (value' (datum (barContainer this' ! 1)))"
    and "attr_height g = map_option (\<lambda>y. 275 - y) (attr_y g)"
    by blast
  then have "geometry (barContainer this' ! 1) = Some g \<and> attr_y g = Some 0
           \<and> attr_height g = Some 275"
    using d by (simp add: quarters_yScale)
  with upd S T have A: "\<exists>this' g. update demo_runtime demo_host constructor
         (with_axis (quarters 20)) demo_start = Inr (this', served [])
       \<and> settings this' = Some \<lparr>dataPoint = \<lparr>showAxis = True\<rparr>\<rparr>
       \<and> xAxis_transform this' = Some (0, 275)
       \<and> geometry (barContainer this' ! 1) = Some g
       \<and> attr_y g = Some 0 \<and> attr_height g = Some 275"
    by (intro exI [of _ this'] exI [of _ g]) simp
  have B: "\<exists>this'. update demo_runtime demo_host constructor (quarters 20) demo_start
         = Inr (this', served [])
       \<and> settings this' = Some \<lparr>dataPoint = \<lparr>showAxis = False\<rparr>\<rparr>
       \<and> xAxis_transform this' = Some (0, 300)
       \<and> map (\<lambda>e. map_option attr_height (geometry e)) (barContainer this')
           = [Some (Some 150), Some (Some 300), Some (Some 75)]"
    using quarters_update
    by (intro exI [of _ "quarters_visual None None None"])
      (simp add: quarters_visual_def quarters_bars_def)
  show ?thesis
    using quarters_transformed [of 20] with_axis_run [of 20] A B by (intro conjI)
qed

subsection \<open>The font size of the axis\<close>

text \<open>
  C8, as the claim states it, fails: with the axis switched on in a 400 by 300 viewport
  the font size is 11, and 0.04 times the smaller viewport dimension is 12.
\<close>

theorem font_size_not_of_viewport_height:
  "map_option xAxis_font_size
     (rendered (update demo_runtime demo_host constructor (with_axis (quarters 20)) demo_start))
     = Some (Some 11)
   \<and> 0.04 * min (width (viewport (with_axis (quarters 20))))
         (height (viewport (with_axis (quarters 20)))) = (12 :: real)"
  by (simp add: update_Inr [OF with_axis_run] rendered_def quarters_settings quarters_viewport
      plot_height_def)

text \<open>
  C8, amended: an update whose payload \<^verbatim>\<open>visualTransform\<close> accepts returns, and the
  font size of the axis labels is 0.04 times the smaller of the viewport width and the
  plotting height, which is the viewport height less 25 when
  \<^verbatim>\<open>settings.dataPoint.showAxis\<close> is true and the viewport height otherwise.
\<close>

theorem update_font_size:
  assumes "visualTransform host options h = Inr (vm, h')"
  shows "\<exists>this'. update rt host this options h = Inr (this', h')
    \<and> xAxis_font_size this' =
        Some (0.04 * min (width (viewport options))
            (if showAxis (dataPoint (settings_of rt options))
             then height (viewport options) - 25 else height (viewport options)))"
proof -
  obtain this' where upd: "update rt host this options h = Inr (this', h')"
    using update_ok [OF assms] by blast
  have "xAxis_font_size this' =
        Some (0.04 * min (width (viewport options))
            (if showAxis (dataPoint (settings_of rt options))
             then height (viewport options) - 25 else height (viewport options)))"
    using update_fields(3) [OF upd] by (simp add: plot_height_if min.commute)
  with upd show ?thesis by (intro exI [of _ this']) simp
qed

theorem update_font_size_witness:
  "visualTransform demo_host (with_axis (quarters 20)) demo_start =
     Inr (\<lparr>dataPoints = quarters_points, dataMax = JNum 20\<rparr>, served [])
   \<and> showAxis (dataPoint (settings_of demo_runtime (with_axis (quarters 20))))
   \<and> (\<exists>this'. update demo_runtime demo_host constructor (with_axis (quarters 20)) demo_start
         = Inr (this', served [])
       \<and> xAxis_font_size this' = Some 11)"
proof -
  have "\<exists>this'. update demo_runtime demo_host constructor (with_axis (quarters 20)) demo_start
         = Inr (this', served [])
       \<and> xAxis_font_size this' = Some 11"
    using update_font_size [OF with_axis_run, of demo_runtime constructor 20]
    by (simp add: quarters_settings quarters_viewport)
  then show ?thesis using with_axis_run [of 20] by (simp add: quarters_settings)
qed

subsection \<open>The scales and the geometry of the bars\<close>

lemma update_scales_and_bars_returned:
  fixes rt :: runtime and options :: VisualUpdateOptions
  defines "W \<equiv> width (viewport options)"
    and "PH \<equiv> plot_height (settings_of rt options) (height (viewport options))"
  assumes upd: "update rt host this options h = Inr (this', h')"
    and run: "visualTransform host options h = Inr (vm, h'')"
  defines "xs \<equiv> xScale rt (dataPoints vm) W"
  defines "fl \<equiv> double rt"
  defines "n \<equiv> real (length (o_domain xs))"
  defines "step \<equiv> Math_floor (fl (fl W / fl (fl (n - fl 0.1) + fl (2 * fl 0.2))))"
  defines "r \<equiv> Math_round (fl (fl (fl W - fl (fl (n - fl 0.1) * step)) / 2))"
  shows "length (barContainer this') = length (dataPoints vm)
    \<and> (\<forall>i < length (dataPoints vm).
          datum (barContainer this' ! i) = dataPoints vm ! i
        \<and> geometry (barContainer this' ! i) = Some
            \<lparr>attr_width = o_rangeBand xs,
             attr_height = map_option (\<lambda>y. PH - y)
                (yScale rt (dataMax vm) PH (value' (dataPoints vm ! i))),
             attr_x = scale_ordinal xs (ToString rt (category (dataPoints vm ! i))),
             attr_y = yScale rt (dataMax vm) PH (value' (dataPoints vm ! i)),
             attr_fill = color (dataPoints vm ! i)\<rparr>
        \<and> (\<exists>k < length (o_domain xs).
              o_domain xs ! k = ToString rt (category (dataPoints vm ! i))))
    \<and> (\<forall>m v. dataMax vm = JNum m \<longrightarrow> m \<noteq> 0 \<longrightarrow>
          yScale rt (dataMax vm) PH (JNum v) = Some (PH - v / m * PH))
    \<and> (\<forall>v. dataMax vm = JNum 0 \<longrightarrow> yScale rt (dataMax vm) PH (JNum v) = Some PH)
    \<and> xAxis_scale this' = Some xs
    \<and> o_domain xs = ordinal_domain (map (\<lambda>d. ToString rt (category d)) (dataPoints vm)) []
    \<and> o_domain xs = rev (remdups (rev (map (\<lambda>d. ToString rt (category d)) (dataPoints vm))))
    \<and> distinct (o_domain xs)
    \<and> (0 \<le> W \<longrightarrow>
          o_rangeBand xs = Math_round (fl (step * fl (1 - fl 0.1)))
        \<and> (\<forall>k < length (o_domain xs).
              scale_ordinal xs (o_domain xs ! k) = Some (fl (fl r + fl (step * real k))))
        \<and> ((\<forall>m::nat. m < 2 ^ 53 \<longrightarrow> fl (real m) = real m) \<longrightarrow> 0 \<le> step \<longrightarrow> 0 \<le> r \<longrightarrow>
            (\<forall>k < length (o_domain xs). r + step * real k < 2 ^ 53 \<longrightarrow>
               scale_ordinal xs (o_domain xs ! k) = Some (r + step * real k))))"
proof (intro conjI allI impI)
  show "length (barContainer this') = length (dataPoints vm)"
    by (rule update_bars_length [OF upd run])
  show "xAxis_scale this' = Some xs"
    unfolding xs_def W_def by (rule update_axis_scale [OF upd run])
  show "o_domain xs = ordinal_domain (map (\<lambda>d. ToString rt (category d)) (dataPoints vm)) []"
    unfolding xs_def by (rule xScale_fields)
  show "o_domain xs = rev (remdups (rev (map (\<lambda>d. ToString rt (category d)) (dataPoints vm))))"
    unfolding xs_def by (rule xScale_domain)
  show "distinct (o_domain xs)"
    unfolding xs_def by (rule xScale_distinct)
next
  fix i assume i: "i < length (dataPoints vm)"
  show "datum (barContainer this' ! i) = dataPoints vm ! i"
    by (simp add: update_bar_nth [OF upd run i])
  show "geometry (barContainer this' ! i) = Some
            \<lparr>attr_width = o_rangeBand xs,
             attr_height = map_option (\<lambda>y. PH - y)
                (yScale rt (dataMax vm) PH (value' (dataPoints vm ! i))),
             attr_x = scale_ordinal xs (ToString rt (category (dataPoints vm ! i))),
             attr_y = yScale rt (dataMax vm) PH (value' (dataPoints vm ! i)),
             attr_fill = color (dataPoints vm ! i)\<rparr>"
    by (simp add: update_bar_nth [OF upd run i] xs_def W_def PH_def)
  show "\<exists>k < length (o_domain xs). o_domain xs ! k = ToString rt (category (dataPoints vm ! i))"
    unfolding xs_def by (rule xScale_label [OF i])
next
  fix m v assume "dataMax vm = JNum m" "m \<noteq> 0"
  then show "yScale rt (dataMax vm) PH (JNum v) = Some (PH - v / m * PH)"
    by (simp add: yScale_linear)
next
  fix v assume "dataMax vm = JNum 0"
  then show "yScale rt (dataMax vm) PH (JNum v) = Some PH"
    by (simp add: yScale_flat)
next
  assume w: "0 \<le> W"
  show "o_rangeBand xs = Math_round (fl (step * fl (1 - fl 0.1)))"
    unfolding step_def n_def fl_def xs_def by (rule xScale_bands(1) [OF w])
  fix k assume "k < length (o_domain xs)"
  then show "scale_ordinal xs (o_domain xs ! k) = Some (fl (fl r + fl (step * real k)))"
    unfolding r_def step_def n_def fl_def xs_def by (rule xScale_bands(2) [OF w])
next
  fix k
  assume "0 \<le> W" "\<forall>m::nat. m < 2 ^ 53 \<longrightarrow> fl (real m) = real m" "0 \<le> step" "0 \<le> r"
    "k < length (o_domain xs)" "r + step * real k < 2 ^ 53"
  then show "scale_ordinal xs (o_domain xs ! k) = Some (r + step * real k)"
    unfolding r_def step_def n_def fl_def xs_def by (rule xScale_whole_bands)
qed

text \<open>
  C4: an update whose payload \<^verbatim>\<open>visualTransform\<close> accepts returns. With
  \<open>W\<close> the viewport width, \<open>P\<close> the plotting height and \<open>xs\<close> the category
  scale:
  \<^item> there is one bar per data point, bound to it, with \<open>width\<close> the band width of
    \<open>xs\<close>, \<open>height = P - yScale(value)\<close>, \<open>x\<close> the band start of its
    category label, \<open>y = yScale(value)\<close> and \<open>fill\<close> its colour; the label of
    every bar is in the domain of \<open>xs\<close>;
  \<^item> the value scale is linear from \<open>[0, dataMax]\<close> to \<open>[P, 0]\<close>: for a
    number \<open>m\<close> other than 0 as \<open>dataMax\<close> it sends \<open>v\<close> to
    \<open>P - v / m * P\<close>, and for \<open>dataMax = 0\<close> it sends every number to \<open>P\<close>;
  \<^item> the axis is drawn for \<open>xs\<close>, whose domain is the category labels in the order
    of the data points, each label at its first occurrence only;
  \<^item> for \<open>W \<ge> 0\<close> and \<open>n\<close> labels, the bands are laid out over \<open>[0, W]\<close> with
    inner padding 0.1 and outer padding 0.2, in double arithmetic (\<open>fl\<close> rounds the
    result of an operation to a double): the step is the whole number
    \<open>step = floor (fl (W / fl (fl (n - 0.1) + fl (2 * 0.2))))\<close>, the first band
    starts at the whole number
    \<open>r = round (fl (fl (W - fl (fl (n - 0.1) * step)) / 2))\<close>, every band has the
    width \<open>round (fl (step * fl (1 - 0.1)))\<close>, and band \<open>k\<close> starts at
    \<open>fl (r + fl (step * k))\<close>;
  \<^item> the bands are evenly spaced: where the whole numbers below \<open>2 ^ 53\<close> are doubles
    and \<open>step\<close> and \<open>r\<close> are not negative, band \<open>k\<close> starts at
    \<open>r + step * k\<close>, as long as that is below \<open>2 ^ 53\<close>.
\<close>

theorem update_scales_and_bars:
  fixes rt :: runtime and options :: VisualUpdateOptions
  defines "W \<equiv> width (viewport options)"
    and "PH \<equiv> plot_height (settings_of rt options) (height (viewport options))"
  assumes run: "visualTransform host options h = Inr (vm, h')"
  defines "xs \<equiv> xScale rt (dataPoints vm) W"
  defines "fl \<equiv> double rt"
  defines "n \<equiv> real (length (o_domain xs))"
  defines "step \<equiv> Math_floor (fl (fl W / fl (fl (n - fl 0.1) + fl (2 * fl 0.2))))"
  defines "r \<equiv> Math_round (fl (fl (fl W - fl (fl (n - fl 0.1) * step)) / 2))"
  shows "\<exists>this'. update rt host this options h = Inr (this', h')
    \<and> length (barContainer this') = length (dataPoints vm)
    \<and> (\<forall>i < length (dataPoints vm).
          datum (barContainer this' ! i) = dataPoints vm ! i
        \<and> geometry (barContainer this' ! i) = Some
            \<lparr>attr_width = o_rangeBand xs,
             attr_height = map_option (\<lambda>y. PH - y)
                (yScale rt (dataMax vm) PH (value' (dataPoints vm ! i))),
             attr_x = scale_ordinal xs (ToString rt (category (dataPoints vm ! i))),
             attr_y = yScale rt (dataMax vm) PH (value' (dataPoints vm ! i)),
             attr_fill = color (dataPoints vm ! i)\<rparr>
        \<and> (\<exists>k < length (o_domain xs).
              o_domain xs ! k = ToString rt (category (dataPoints vm ! i))))
    \<and> (\<forall>m v. dataMax vm = JNum m \<longrightarrow> m \<noteq> 0 \<longrightarrow>
          yScale rt (dataMax vm) PH (JNum v) = Some (PH - v / m * PH))
    \<and> (\<forall>v. dataMax vm = JNum 0 \<longrightarrow> yScale rt (dataMax vm) PH (JNum v) = Some PH)
    \<and> xAxis_scale this' = Some xs
    \<and> o_domain xs = ordinal_domain (map (\<lambda>d. ToString rt (category d)) (dataPoints vm)) []
    \<and> o_domain xs = rev (remdups (rev (map (\<lambda>d. ToString rt (category d)) (dataPoints vm))))
    \<and> distinct (o_domain xs)
    \<and> (0 \<le> W \<longrightarrow>
          o_rangeBand xs = Math_round (fl (step * fl (1 - fl 0.1)))
        \<and> (\<forall>k < length (o_domain xs).
              scale_ordinal xs (o_domain xs ! k) = Some (fl (fl r + fl (step * real k))))
        \<and> ((\<forall>m::nat. m < 2 ^ 53 \<longrightarrow> fl (real m) = real m) \<longrightarrow> 0 \<le> step \<longrightarrow> 0 \<le> r \<longrightarrow>
            (\<forall>k < length (o_domain xs). r + step * real k < 2 ^ 53 \<longrightarrow>
               scale_ordinal xs (o_domain xs ! k) = Some (r + step * real k))))"
proof -
  obtain this' where upd: "update rt host this options h = Inr (this', h')"
    using update_ok [OF run] by blast
  show ?thesis
    unfolding r_def step_def n_def fl_def xs_def PH_def W_def
    by (rule exI [of _ this'], rule conjI [OF upd update_scales_and_bars_returned [OF upd run]])
qed

text \<open>
  The scenario of the claim: viewport 400 by 300, no axis band, categories Q1, Q2, Q3,
  values 10, 20, 5 and \<open>dataMax = 20\<close> give three bars, the bar of Q2 of height 300
  and the bar of Q3 of height 75.
\<close>

theorem update_scales_and_bars_witness:
  "update demo_runtime demo_host constructor (quarters 20) demo_start =
     Inr (quarters_visual None None None, served [])
   \<and> visualTransform demo_host (quarters 20) demo_start =
     Inr (\<lparr>dataPoints = quarters_points, dataMax = JNum 20\<rparr>, served [])
   \<and> length (barContainer (quarters_visual None None None)) = 3
   \<and> map geometry (barContainer (quarters_visual None None None)) =
       [Some \<lparr>attr_width = 109, attr_height = Some 150, attr_x = Some 25, attr_y = Some 150,
          attr_fill = ''#01B8AA''\<rparr>,
        Some \<lparr>attr_width = 109, attr_height = Some 300, attr_x = Some 146, attr_y = Some 0,
          attr_fill = ''#374649''\<rparr>,
        Some \<lparr>attr_width = 109, attr_height = Some 75, attr_x = Some 267, attr_y = Some 225,
          attr_fill = ''#FD625E''\<rparr>]"
proof -
  note T = update_scales_and_bars [OF quarters_transformed, of demo_runtime constructor 20,
      unfolded quarters_update]
  let ?bars = "barContainer (quarters_visual None None None)"
  have len: "length ?bars = 3"
    using T by (simp add: quarters_points_def)
  have geo: "geometry (?bars ! i) = Some
            \<lparr>attr_width = o_rangeBand (xScale demo_runtime quarters_points 400),
             attr_height = map_option (\<lambda>y. 300 - y)
                (yScale demo_runtime (JNum 20) 300 (value' (quarters_points ! i))),
             attr_x = scale_ordinal (xScale demo_runtime quarters_points 400)
                (ToString demo_runtime (category (quarters_points ! i))),
             attr_y = yScale demo_runtime (JNum 20) 300 (value' (quarters_points ! i)),
             attr_fill = color (quarters_points ! i)\<rparr>" if "i < 3" for i
    using T that
    by (simp add: quarters_settings quarters_viewport plot_height_def quarters_points_def)
  note geo' = geo [unfolded quarters_xScale]
  have g0: "geometry (?bars ! 0) = Some \<lparr>attr_width = 109, attr_height = Some 150,
      attr_x = Some 25, attr_y = Some 150, attr_fill = ''#01B8AA''\<rparr>"
    using geo' [of 0]
    by (simp add: quarters_points_def quarters_yScale scale_ordinal_def ToString_def)
  have g1: "geometry (?bars ! 1) = Some \<lparr>attr_width = 109, attr_height = Some 300,
      attr_x = Some 146, attr_y = Some 0, attr_fill = ''#374649''\<rparr>"
    using geo' [of 1]
    by (simp add: quarters_points_def quarters_yScale scale_ordinal_def ToString_def)
  have g2: "geometry (?bars ! 2) = Some \<lparr>attr_width = 109, attr_height = Some 75,
      attr_x = Some 267, attr_y = Some 225, attr_fill = ''#FD625E''\<rparr>"
    using geo' [of 2]
    by (simp add: quarters_points_def quarters_yScale scale_ordinal_def ToString_def)
  have "map geometry ?bars = [geometry (?bars ! 0), geometry (?bars ! 1), geometry (?bars ! 2)]"
    using list3 [of "map geometry ?bars"] len by simp
  also have "\<dots> =
       [Some \<lparr>attr_width = 109, attr_height = Some 150, attr_x = Some 25, attr_y = Some 150,
          attr_fill = ''#01B8AA''\<rparr>,
        Some \<lparr>attr_width = 109, attr_height = Some 300, attr_x = Some 146, attr_y = Some 0,
          attr_fill = ''#374649''\<rparr>,
        Some \<lparr>attr_width = 109, attr_height = Some 75, attr_x = Some 267, attr_y = Some 225,
          attr_fill = ''#FD625E''\<rparr>]"
    by (simp only: g0 g1 g2)
  finally show ?thesis using len quarters_update quarters_transformed [of 20] by simp
qed

subsection \<open>Clicking a bar\<close>

lemma then_select_length:
  "length (barContainer (then_select this i ids)) = length (barContainer this)"
  by (simp add: then_select_def Let_def)

lemma then_select_nth:
  assumes "j < length (barContainer this)"
  shows "barContainer (then_select this i ids) ! j =
    (barContainer this ! j)\<lparr>fill_opacity :=
       Some (if j = i then 1 else if ids = [] then 1 else 0.5)\<rparr>"
  using assms by (cases "i < length (barContainer this)")
    (auto simp: then_select_def Let_def nth_list_update)

lemma rendered_select: "select demo_host [k] (served a) =
    (Some (if a = [[k]] then [] else [[k]]), served (if a = [[k]] then [] else [[k]]))"
  by (simp add: demo_host_def demo_select_def served_def Let_def)

lemma quarters_then_select:
  "then_select (quarters_visual o1 o2 o3) 0 ids =
     quarters_visual (Some 1) (Some (if ids = [] then 1 else 0.5)) (Some (if ids = [] then 1 else 0.5))"
  by (simp add: then_select_def quarters_visual_def quarters_bars_def Let_def)

lemma quarters_bar0:
  "selectionID (datum (barContainer (quarters_visual o1 o2 o3) ! 0)) = [0]"
  "click_listener (barContainer (quarters_visual o1 o2 o3) ! 0)"
  "barContainer (quarters_visual o1 o2 o3) \<noteq> []"
  by (simp_all add: quarters_visual_def quarters_bars_def)

lemma quarters_opacity:
  "map fill_opacity (barContainer (quarters_visual o1 o2 o3)) = [o1, o2, o3]"
  by (simp add: quarters_visual_def quarters_bars_def)

lemma quarters_click:
  "click demo_host (quarters_visual o1 o2 o3) 0 (served a) =
    (then_select (quarters_visual o1 o2 o3) 0 (if a = [[0]] then [] else [[0]]),
     served (if a = [[0]] then [] else [[0]]))"
  by (simp add: click_def quarters_bar0 rendered_select)

lemma demo_clicked_eq: "demo_clicked = (quarters_visual (Some 1) (Some 0.5) (Some 0.5), served [[0]])"
  by (simp add: demo_clicked_def quarters_click quarters_then_select)

text \<open>
  C6, as the claim states it, fails: after a click on the first bar the other two bars
  have opacity 0.5; a second click on it deselects, the selection manager answers with
  the empty set, and the continuation sets every bar to opacity 1. The step is not a
  no-op.
\<close>

theorem empty_selection_is_not_a_no_op:
  "demo_clicked = click demo_host (quarters_visual None None None) 0 (served [])
   \<and> map fill_opacity (barContainer (fst demo_clicked)) = [Some 1, Some 0.5, Some 0.5]
   \<and> select demo_host (selectionID (datum (barContainer (fst demo_clicked) ! 0))) (snd demo_clicked)
       = (Some [], served [])
   \<and> map fill_opacity (barContainer (fst (click demo_host (fst demo_clicked) 0 (snd demo_clicked))))
       = [Some 1, Some 1, Some 1]"
proof (intro conjI)
  show "demo_clicked = click demo_host (quarters_visual None None None) 0 (served [])"
    by (rule demo_clicked_def)
  show "map fill_opacity (barContainer (fst demo_clicked)) = [Some 1, Some 0.5, Some 0.5]"
    by (simp add: demo_clicked_eq quarters_opacity)
  show "select demo_host (selectionID (datum (barContainer (fst demo_clicked) ! 0))) (snd demo_clicked)
       = (Some [], served [])"
    by (simp add: demo_clicked_eq quarters_bar0 rendered_select)
  show "map fill_opacity (barContainer (fst (click demo_host (fst demo_clicked) 0 (snd demo_clicked))))
       = [Some 1, Some 1, Some 1]"
    by (simp add: demo_clicked_eq quarters_click quarters_then_select quarters_opacity)
qed

lemma click_selects_and_dims_returned:
  assumes upd: "update rt host this options h = Inr (this', h')"
    and run: "visualTransform host options h = Inr (vm, h'')"
    and i: "i < length (dataPoints vm)"
  shows "click_listener (barContainer this' ! i)
    \<and> (\<forall>g. click host this' i g =
          (case select host (selectionID (dataPoints vm ! i)) g of
             (None, g') \<Rightarrow> (this', g')
           | (Some ids, g') \<Rightarrow> (then_select this' i ids, g')))
    \<and> (\<forall>ids. length (barContainer (then_select this' i ids)) = length (barContainer this')
          \<and> (\<forall>j < length (barContainer this').
                barContainer (then_select this' i ids) ! j =
                  (barContainer this' ! j)\<lparr>fill_opacity :=
                     Some (if j = i then 1 else if ids = [] then 1 else 0.5)\<rparr>))"
proof -
  have len: "length (barContainer this') = length (dataPoints vm)"
    by (rule update_bars_length [OF upd run])
  have bar: "click_listener (barContainer this' ! i)"
    "datum (barContainer this' ! i) = dataPoints vm ! i"
    by (simp_all add: update_bar_nth [OF upd run i])
  have "click host this' i g =
          (case select host (selectionID (dataPoints vm ! i)) g of
             (None, g') \<Rightarrow> (this', g')
           | (Some ids, g') \<Rightarrow> (then_select this' i ids, g'))" for g
    using i len bar by (simp add: click_def)
  then show ?thesis
    using bar(1) by (simp add: then_select_length then_select_nth)
qed

text \<open>
  C6, amended: an update whose payload \<^verbatim>\<open>visualTransform\<close> accepts returns, and
  then every bar has the click listener; a click on bar \<open>i\<close>
  calls \<^verbatim>\<open>select\<close> of the selection manager with the selection id of data point
  \<open>i\<close>, and when the continuation runs with the active selection \<open>ids\<close> it
  changes nothing but \<^verbatim>\<open>fill-opacity\<close>: the clicked bar gets 1, and every other
  bar gets 0.5 when \<open>ids\<close> is not empty and 1 when it is empty.
\<close>

theorem click_selects_and_dims:
  assumes run: "visualTransform host options h = Inr (vm, h')"
    and i: "i < length (dataPoints vm)"
  shows "\<exists>this'. update rt host this options h = Inr (this', h')
    \<and> click_listener (barContainer this' ! i)
    \<and> (\<forall>g. click host this' i g =
          (case select host (selectionID (dataPoints vm ! i)) g of
             (None, g') \<Rightarrow> (this', g')
           | (Some ids, g') \<Rightarrow> (then_select this' i ids, g')))
    \<and> (\<forall>ids. length (barContainer (then_select this' i ids)) = length (barContainer this')
          \<and> (\<forall>j < length (barContainer this').
                barContainer (then_select this' i ids) ! j =
                  (barContainer this' ! j)\<lparr>fill_opacity :=
                     Some (if j = i then 1 else if ids = [] then 1 else 0.5)\<rparr>))"
proof -
  obtain this' where upd: "update rt host this options h = Inr (this', h')"
    using update_ok [OF run] by blast
  show ?thesis
    by (rule exI [of _ this'], rule conjI [OF upd click_selects_and_dims_returned [OF upd run i]])
qed

theorem click_selects_and_dims_witness:
  "update demo_runtime demo_host constructor (quarters 20) demo_start =
     Inr (quarters_visual None None None, served [])
   \<and> select demo_host [0] (served []) = (Some [[0]], served [[0]])
   \<and> click demo_host (quarters_visual None None None) 0 (served []) =
       (then_select (quarters_visual None None None) 0 [[0]], served [[0]])
   \<and> map fill_opacity (barContainer (then_select (quarters_visual None None None) 0 [[0]])) =
       [Some 1, Some 0.5, Some 0.5]"
proof -
  have i: "0 < length (dataPoints \<lparr>dataPoints = quarters_points, dataMax = JNum 20\<rparr>)"
    by (simp add: quarters_points_def)
  note T = click_selects_and_dims [OF quarters_transformed i, of demo_runtime constructor,
      unfolded quarters_update]
  have s: "select demo_host [0] (served []) = (Some [[0]], served [[0]])"
    by (simp add: rendered_select)
  have "selectionID (dataPoints \<lparr>dataPoints = quarters_points, dataMax = JNum 20\<rparr> ! 0) = [0]"
    by (simp add: quarters_points_def)
  with T s have c: "click demo_host (quarters_visual None None None) 0 (served []) =
       (then_select (quarters_visual None None None) 0 [[0]], served [[0]])"
    by simp
  have o: "map fill_opacity (barContainer (then_select (quarters_visual None None None) 0 [[0]])) =
       [Some 1, Some 0.5, Some 0.5]"
    by (simp add: quarters_then_select quarters_opacity)
  show ?thesis using quarters_update s c o by (intro conjI)
qed

end
